theory Spec2Isabelle
  imports Main "HOL-Library.Multiset" "HOL-Library.Char_ord" "HOL-Library.List_Lexorder"
begin

section \<open>The Python run-time operations the report engines rely on\<close>

text \<open>
  The repository is Python 3. Exceptions are values of \<open>pyerror\<close>, and a function that may
  raise returns \<open>pyerror + 'a\<close> with \<open>Inl\<close> for the exception.
\<close>

datatype pyerror =
    ZeroDivisionError
  | NameError
  | IndexError
  | TypeError
  | AttributeError
  | ValueError
  | KeyError
  | NotOwnedAtSpecifiedDateError

fun fold_err :: "('a \<Rightarrow> 's \<Rightarrow> pyerror + 's) \<Rightarrow> 'a list \<Rightarrow> 's \<Rightarrow> pyerror + 's" where
  "fold_err f [] s = Inr s"
| "fold_err f (x # xs) s = (case f x s of Inl e \<Rightarrow> Inl e | Inr s' \<Rightarrow> fold_err f xs s')"

subsection \<open>Floating point\<close>

text \<open>
  \<open>transformers.py\<close> starts with \<open>from __future__ import division\<close>: \<open>/\<close> on two integers is
  true division and returns a float, an IEEE 754 double. A finite double is written here as a
  pair \<open>(m, e)\<close> of integers standing for \<open>m * 2 ^ e\<close>. \<open>round_ratio p q\<close> is the double nearest to
  the fraction \<open>p / q\<close> (\<open>0 < q\<close>), ties to even: the binade of the fraction is found from the bit
  lengths (\<open>bitlen\<close>) of \<open>p\<close> and \<open>q\<close>, the unit in the last place is \<open>2 ^ (binade - 52)\<close> (never below
  \<open>2 ^ - 1074\<close>, the spacing of the subnormal numbers), and the fraction is rounded to a multiple
  of that unit. Overflow to infinity is left out: the only quotients formed by the engines are
  at most 1 (a share of a group) or at most the largest rating (an average), and the only
  product is 100 times such a share.
\<close>

type_synonym pyfloat = "int \<times> int"

definition nearest_even :: "int \<Rightarrow> int \<Rightarrow> int \<Rightarrow> int" where
  "nearest_even f r den =
     (if 2 * r < den then f else if den < 2 * r then f + 1
      else if even f then f else f + 1)"

definition round_at :: "int \<Rightarrow> int \<Rightarrow> int \<Rightarrow> int" where
  "round_at a q s =
     (if 0 \<le> s
      then nearest_even (a div (q * 2 ^ nat s)) (a mod (q * 2 ^ nat s)) (q * 2 ^ nat s)
      else nearest_even (a * 2 ^ nat (- s) div q) (a * 2 ^ nat (- s) mod q) q)"

definition binade :: "int \<Rightarrow> int \<Rightarrow> int \<Rightarrow> int" where
  "binade a q k =
     (if (if 0 \<le> k then q * 2 ^ nat k \<le> a else q \<le> a * 2 ^ nat (- k)) then k else k - 1)"

function bitlen :: "int \<Rightarrow> int" where
  "bitlen a = (if a \<le> 0 then 0 else 1 + bitlen (a div 2))"
  by pat_completeness auto
termination
  by (relation "measure nat") auto

definition unit_exp :: "int \<Rightarrow> int \<Rightarrow> int" where
  "unit_exp a q =
     max (binade a q (bitlen a - bitlen q)) (- 1022) - 52"

definition round_ratio :: "int \<Rightarrow> int \<Rightarrow> pyfloat" where
  "round_ratio p q =
     (if p = 0 then (0, 0)
      else (sgn p * round_at \<bar>p\<bar> q (unit_exp \<bar>p\<bar> q), unit_exp \<bar>p\<bar> q))"

text \<open>\<open>a / b\<close> on integers: \<open>ZeroDivisionError\<close> for a zero divisor, else the nearest double.\<close>

definition truediv :: "int \<Rightarrow> int \<Rightarrow> pyerror + pyfloat" where
  "truediv a b =
     (if b = 0 then Inl ZeroDivisionError else Inr (round_ratio (a * sgn b) \<bar>b\<bar>))"

text \<open>An integer operand of a float operation is converted to a float first.\<close>

definition float_of_int :: "int \<Rightarrow> pyfloat" where
  "float_of_int n = round_ratio n 1"

text \<open>The product of two doubles is the exact product, rounded once.\<close>

definition float_mul :: "pyfloat \<Rightarrow> pyfloat \<Rightarrow> pyfloat" where
  "float_mul x y =
     (if 0 \<le> snd x + snd y
      then round_ratio (fst x * fst y * 2 ^ nat (snd x + snd y)) 1
      else round_ratio (fst x * fst y) (2 ^ nat (- (snd x + snd y))))"

text \<open>\<open>int(x)\<close> on a float truncates towards zero.\<close>

definition int_of_float :: "pyfloat \<Rightarrow> int" where
  "int_of_float x =
     (if 0 \<le> snd x then fst x * 2 ^ nat (snd x)
      else sgn (fst x) * (\<bar>fst x\<bar> div 2 ^ nat (- snd x)))"

subsection \<open>Dictionaries\<close>

text \<open>
  A \<open>dict\<close> keeps its keys in insertion order, so it is an association list with distinct
  keys. Storing under a key that is present replaces the value in place; storing under a new
  key appends. A \<open>defaultdict\<close> differs in one way: \<^emph>\<open>reading\<close> a missing key stores the default
  under it and returns it. \<open>dd_lookup\<close> is the value a read returns and \<open>dd_touch\<close> the table
  the read leaves behind.
\<close>

fun dict_set :: "'k \<Rightarrow> 'v \<Rightarrow> ('k \<times> 'v) list \<Rightarrow> ('k \<times> 'v) list" where
  "dict_set k v [] = [(k, v)]"
| "dict_set k v (p # t) = (if fst p = k then (fst p, v) # t else p # dict_set k v t)"

definition dd_lookup :: "'v \<Rightarrow> ('k \<times> 'v) list \<Rightarrow> 'k \<Rightarrow> 'v" where
  "dd_lookup d t k = (case map_of t k of None \<Rightarrow> d | Some v \<Rightarrow> v)"

definition dd_touch :: "'v \<Rightarrow> ('k \<times> 'v) list \<Rightarrow> 'k \<Rightarrow> ('k \<times> 'v) list" where
  "dd_touch d t k = (case map_of t k of None \<Rightarrow> t @ [(k, d)] | Some v \<Rightarrow> t)"

text \<open>\<open>table[key] += n\<close> on a \<open>defaultdict(int)\<close>: a read, then a store.\<close>

definition dd_add :: "('k \<times> int) list \<Rightarrow> 'k \<Rightarrow> int \<Rightarrow> ('k \<times> int) list" where
  "dd_add t k n = dict_set k (dd_lookup 0 t k + n) (dd_touch 0 t k)"

subsection \<open>Sorting and formatting\<close>

text \<open>
  \<open>sorted(xs, key=cmp_to_key(cmp))\<close> compares two elements only through
  \<open>cmp(a, b) < 0\<close> and is stable. It is modelled as the insertion sort that CPython's \<open>list.sort\<close> runs on
  short lists: each element in turn is put before the first element it is less than.
\<close>

fun insort_lt :: "('a \<Rightarrow> 'a \<Rightarrow> bool) \<Rightarrow> 'a \<Rightarrow> 'a list \<Rightarrow> 'a list" where
  "insort_lt lt x [] = [x]"
| "insort_lt lt x (y # ys) = (if lt x y then x # y # ys else y # insort_lt lt x ys)"

definition sorted_py :: "('a \<Rightarrow> 'a \<Rightarrow> int) \<Rightarrow> 'a list \<Rightarrow> 'a list" where
  "sorted_py cmp xs = foldl (\<lambda>acc x. insort_lt (\<lambda>a b. cmp a b < 0) x acc) [] xs"

fun digits :: "nat \<Rightarrow> string" where
  "digits n = (if n < 10 then [''0123456789'' ! n]
               else digits (n div 10) @ [''0123456789'' ! (n mod 10)])"

definition ljust :: "nat \<Rightarrow> string \<Rightarrow> string" where
  "ljust w s = s @ replicate (w - length s) (CHR '' '')"

definition rjust :: "nat \<Rightarrow> string \<Rightarrow> string" where
  "rjust w s = replicate (w - length s) (CHR '' '') @ s"

text \<open>The conversions \<open>%wd\<close> and \<open>%+wd\<close> of the \<open>%\<close> operator.\<close>

definition fmt_d :: "nat \<Rightarrow> int \<Rightarrow> string" where
  "fmt_d w i = rjust w ((if i < 0 then ''-'' else '''') @ digits (nat \<bar>i\<bar>))"

definition fmt_plus_d :: "nat \<Rightarrow> int \<Rightarrow> string" where
  "fmt_plus_d w i = rjust w ((if i < 0 then ''-'' else ''+'') @ digits (nat \<bar>i\<bar>))"

section \<open>What the engines read from a Book\<close>

text \<open>
  \<open>utils/book.py\<close> is not among the sources at hand. The engines of \<open>transformers.py\<close> use three
  things of a Book: \<open>book.property_as_sequence(key_attribute)\<close>, \<open>book.is_unread\<close> and
  \<open>book.rating\<close>. They are taken as given, for any type \<open>'k\<close> of grouping keys. The truth value
  Python gives a key (\<open>if key\<close>: false for \<open>None\<close>, \<open>0\<close> and the empty string) is the parameter
  \<open>truthy\<close> of the constructors.
\<close>

record 'k book =
  property_as_sequence :: "string \<Rightarrow> 'k list"
  is_unread :: bool
  rating :: "nat option"

text \<open>
  Python's truth value of a string key and of an integer key, and a Book as the engines see
  it when it is grouped by its shelves.
\<close>

definition truthy_str :: "string \<Rightarrow> bool" where
  "truthy_str s \<longleftrightarrow> s \<noteq> []"

definition truthy_int :: "int \<Rightarrow> bool" where
  "truthy_int i \<longleftrightarrow> i \<noteq> 0"

definition shelf_book :: "string list \<Rightarrow> bool \<Rightarrow> nat option \<Rightarrow> string book" where
  "shelf_book shelves unread r =
     \<lparr>property_as_sequence = (\<lambda>attr. if attr = ''shelves'' then shelves else []),
      is_unread = unread, rating = r\<rparr>"

definition example_books :: "string book list" where
  "example_books =
     [shelf_book [''sf'', ''classics''] False (Some 4),
      shelf_book [''sf''] True None,
      shelf_book [''sf''] False (Some 5)]"

text \<open>
  Six books on four shelves, for the order of rendering: \<open>b\<close> and \<open>a\<close> have one read and one
  unread book each, \<open>c\<close> has one read and two unread, \<open>d\<close> has two read and four unread.
\<close>

definition tie_books :: "string book list" where
  "tie_books =
     [shelf_book [''b'', ''a'', ''c'', ''d''] False None,
      shelf_book [''d''] False None,
      shelf_book [''b'', ''a'', ''c'', ''d''] True None,
      shelf_book [''c'', ''d''] True None,
      shelf_book [''d''] True None,
      shelf_book [''d''] True None]"

text \<open>Fifty books on one shelf, 29 of them read.\<close>

definition fifty_books :: "string book list" where
  "fifty_books =
     replicate 29 (shelf_book [''sf''] False None) @ replicate 21 (shelf_book [''sf''] True None)"

section \<open>transformers.py: ReadVsUnreadReport\<close>

record 'k ReadVsUnreadStat =
  key :: 'k
  percentage_read :: int
  difference :: int

definition compare_rvustat ::
  "('k::linorder) ReadVsUnreadStat \<Rightarrow> 'k ReadVsUnreadStat \<Rightarrow> int" where
  "compare_rvustat a b =
     (if percentage_read a = percentage_read b
      then (if \<bar>difference b\<bar> - \<bar>difference a\<bar> = 0
            then (if key a > key b then 1 else - 1)
            else \<bar>difference b\<bar> - \<bar>difference a\<bar>)
      else percentage_read a - percentage_read b)"

text \<open>
  The attribute \<open>stats\<close> does not exist until \<open>process\<close> has run: it is \<open>None\<close> until then.
\<close>

record 'k ReadVsUnreadReport =
  unread_count :: "('k \<times> int) list"
  read_count :: "('k \<times> int) list"
  grouping_count :: "('k \<times> int) list"
  ignore_single_book_groups :: bool
  stats :: "'k ReadVsUnreadStat list option"

text \<open>The body of the inner loop of \<open>__init__\<close>, for one key of one book.\<close>

definition rvu_count ::
  "('k \<Rightarrow> bool) \<Rightarrow> bool \<Rightarrow> 'k book \<Rightarrow> 'k \<Rightarrow> 'k ReadVsUnreadReport \<Rightarrow> 'k ReadVsUnreadReport" where
  "rvu_count truthy ignore_undefined_book_groups bk k r =
     (if truthy k \<or> \<not> ignore_undefined_book_groups
      then (if is_unread bk
            then r\<lparr>grouping_count := dd_add (grouping_count r) k 1,
                   unread_count := dd_add (unread_count r) k 1\<rparr>
            else r\<lparr>grouping_count := dd_add (grouping_count r) k 1,
                   read_count := dd_add (read_count r) k 1\<rparr>)
      else r)"

definition ReadVsUnreadReport_init ::
  "('k \<Rightarrow> bool) \<Rightarrow> 'k book list \<Rightarrow> string \<Rightarrow> bool \<Rightarrow> bool \<Rightarrow> 'k ReadVsUnreadReport" where
  "ReadVsUnreadReport_init truthy books key_attribute ignore_single ignore_undefined =
     fold (\<lambda>bk. fold (rvu_count truthy ignore_undefined bk)
                      (property_as_sequence bk key_attribute))
          books
          \<lparr>unread_count = [], read_count = [], grouping_count = [],
           ignore_single_book_groups = ignore_single, stats = None\<rparr>"

text \<open>\<open>int(100 * (rd / (rd+ur)))\<close>\<close>

definition percentage :: "int \<Rightarrow> int \<Rightarrow> pyerror + int" where
  "percentage rd ur =
     (case truediv rd (rd + ur) of
        Inl e \<Rightarrow> Inl e
      | Inr q \<Rightarrow> Inr (int_of_float (float_mul (float_of_int 100) q)))"

text \<open>
  The part of the loop body of \<open>process\<close> after the two counts have been read. The handler of
  \<open>ZeroDivisionError\<close> calls \<open>logging.warning\<close>, and the module never imports \<open>logging\<close>:
  entering the handler raises \<open>NameError\<close>.
\<close>

definition rvu_stat ::
  "'k \<Rightarrow> int \<Rightarrow> int \<Rightarrow> 'k ReadVsUnreadReport \<Rightarrow> pyerror + 'k ReadVsUnreadReport" where
  "rvu_stat k rd ur r =
     (if ignore_single_book_groups r \<and> rd + ur = 1 then Inr r
      else (case percentage rd ur of
              Inl e \<Rightarrow> Inl (if e = ZeroDivisionError then NameError else e)
            | Inr p \<Rightarrow>
                Inr (r\<lparr>stats := map_option
                       (\<lambda>ss. ss @ [\<lparr>key = k, percentage_read = p, difference = rd - ur\<rparr>])
                       (stats r)\<rparr>)))"

definition rvu_process_key ::
  "'k \<Rightarrow> 'k ReadVsUnreadReport \<Rightarrow> pyerror + 'k ReadVsUnreadReport" where
  "rvu_process_key k r =
     rvu_stat k (dd_lookup 0 (read_count r) k) (dd_lookup 0 (unread_count r) k)
       (r\<lparr>read_count := dd_touch 0 (read_count r) k,
          unread_count := dd_touch 0 (unread_count r) k\<rparr>)"

text \<open>\<open>process\<close> returns \<open>self\<close>: the result is the report in its new state.\<close>

definition ReadVsUnreadReport_process ::
  "'k ReadVsUnreadReport \<Rightarrow> pyerror + 'k ReadVsUnreadReport" where
  "ReadVsUnreadReport_process r =
     fold_err rvu_process_key (map fst (grouping_count r)) (r\<lparr>stats := Some []\<rparr>)"

text \<open>
  \<open>'%-30s : %5d%% %+3d %3d' % (str(stat[0])[:30], stat[1], stat[2], count)\<close>, with \<open>str\<close> on
  keys a parameter.
\<close>

definition rvu_line :: "('k \<Rightarrow> string) \<Rightarrow> 'k ReadVsUnreadStat \<Rightarrow> int \<Rightarrow> string" where
  "rvu_line str_of s n =
     ljust 30 (take 30 (str_of (key s))) @ '' : '' @ fmt_d 5 (percentage_read s) @ ''% ''
       @ fmt_plus_d 3 (difference s) @ '' '' @ fmt_d 3 n"

text \<open>
  The loop of \<open>render\<close> over the sorted stats. The lines handed to \<open>output_function\<close> are
  collected in the order of the calls; reading \<open>self.grouping_count[stat[0]]\<close> is a read of a
  \<open>defaultdict\<close>.
\<close>

fun rvu_render_loop ::
  "('k \<Rightarrow> string) \<Rightarrow> 'k ReadVsUnreadStat list \<Rightarrow> 'k ReadVsUnreadReport
     \<Rightarrow> string list \<times> 'k ReadVsUnreadReport" where
  "rvu_render_loop str_of [] r = ([], r)"
| "rvu_render_loop str_of (s # ss) r =
     (case rvu_render_loop str_of ss
             (r\<lparr>grouping_count := dd_touch 0 (grouping_count r) (key s)\<rparr>) of
        (ls, r') \<Rightarrow> (rvu_line str_of s (dd_lookup 0 (grouping_count r) (key s)) # ls, r'))"

definition ReadVsUnreadReport_render ::
  "('k::linorder \<Rightarrow> string) \<Rightarrow> 'k ReadVsUnreadReport
     \<Rightarrow> pyerror + string list \<times> 'k ReadVsUnreadReport" where
  "ReadVsUnreadReport_render str_of r =
     (case stats r of
        None \<Rightarrow> Inl AttributeError
      | Some ss \<Rightarrow> Inr (rvu_render_loop str_of (sorted_py compare_rvustat ss) r))"

text \<open>
  Two descriptions used to state the properties below. \<open>rvu_new_stats r k\<close> is what one turn of
  the loop of \<open>process\<close> adds to \<open>stats\<close> for the key \<open>k\<close>, read off the counts of \<open>r\<close>.
  \<open>rvu_before\<close> is the rendering order in the words of the specification: percentage read
  ascending, then the larger absolute difference first, then the key ascending.
\<close>

definition rvu_new_stats :: "'k ReadVsUnreadReport \<Rightarrow> 'k \<Rightarrow> 'k ReadVsUnreadStat list" where
  "rvu_new_stats r k =
     (if ignore_single_book_groups r
         \<and> dd_lookup 0 (read_count r) k + dd_lookup 0 (unread_count r) k = 1 then []
      else (case percentage (dd_lookup 0 (read_count r) k) (dd_lookup 0 (unread_count r) k) of
              Inl e \<Rightarrow> []
            | Inr p \<Rightarrow> [\<lparr>key = k, percentage_read = p,
                         difference = dd_lookup 0 (read_count r) k
                                      - dd_lookup 0 (unread_count r) k\<rparr>]))"

text \<open>
  What the constructor establishes: the keys of \<open>grouping_count\<close> are distinct, its count for
  a key is the sum of the two other counts, no count is negative, and a key that is present
  has been counted at least once.
\<close>

definition rvu_inv :: "'k ReadVsUnreadReport \<Rightarrow> bool" where
  "rvu_inv r \<longleftrightarrow>
     distinct (map fst (grouping_count r))
     \<and> (\<forall>k. dd_lookup 0 (grouping_count r) k
              = dd_lookup 0 (read_count r) k + dd_lookup 0 (unread_count r) k)
     \<and> (\<forall>k. 0 \<le> dd_lookup 0 (read_count r) k \<and> 0 \<le> dd_lookup 0 (unread_count r) k)
     \<and> (\<forall>k. k \<in> fst ` set (grouping_count r) \<longrightarrow> 1 \<le> dd_lookup 0 (grouping_count r) k)"

definition rvu_before ::
  "('k::linorder) ReadVsUnreadStat \<Rightarrow> 'k ReadVsUnreadStat \<Rightarrow> bool" where
  "rvu_before a b \<longleftrightarrow>
     percentage_read a < percentage_read b
     \<or> (percentage_read a = percentage_read b
        \<and> (\<bar>difference b\<bar> < \<bar>difference a\<bar>
           \<or> (\<bar>difference a\<bar> = \<bar>difference b\<bar> \<and> key a < key b)))"

section \<open>transformers.py: BestRankedReport\<close>

record 'k BestRankedStat =
  key_br :: 'k
  average_rating :: pyfloat
  number_of_books_rated :: int

record 'k BestRankedReport =
  ignore_single_book_groups_br :: bool
  rated_count :: "('k \<times> int) list"
  cumulative_rating :: "('k \<times> int) list"
  rating_groupings :: "('k \<times> int option list) list"
  stats_br :: "'k BestRankedStat list option"

text \<open>\<open>[None, 0,0,0,0,0]\<close>, the default of \<open>rating_groupings\<close>.\<close>

definition no_ratings :: "int option list" where
  "no_ratings = [None, Some 0, Some 0, Some 0, Some 0, Some 0]"

text \<open>
  \<open>self.rating_groupings[key][br] += 1\<close>: the list under the key is read (and stored, if the key
  is new), then its element \<open>br\<close> is replaced. An index past the end raises \<open>IndexError\<close> and
  adding to \<open>None\<close> raises \<open>TypeError\<close>.
\<close>

definition bump_rating ::
  "('k \<times> int option list) list \<Rightarrow> 'k \<Rightarrow> nat \<Rightarrow> pyerror + ('k \<times> int option list) list" where
  "bump_rating t k br =
     (if length (dd_lookup no_ratings t k) \<le> br then Inl IndexError
      else (case dd_lookup no_ratings t k ! br of
              None \<Rightarrow> Inl TypeError
            | Some c \<Rightarrow> Inr (dict_set k ((dd_lookup no_ratings t k)[br := Some (c + 1)])
                               (dd_touch no_ratings t k))))"

definition br_count ::
  "('k \<Rightarrow> bool) \<Rightarrow> bool \<Rightarrow> nat \<Rightarrow> 'k \<Rightarrow> 'k BestRankedReport \<Rightarrow> pyerror + 'k BestRankedReport" where
  "br_count truthy ignore_undefined_book_groups br k b =
     (if truthy k \<or> \<not> ignore_undefined_book_groups
      then (case bump_rating (rating_groupings b) k br of
              Inl e \<Rightarrow> Inl e
            | Inr g \<Rightarrow> Inr (b\<lparr>rated_count := dd_add (rated_count b) k 1,
                              cumulative_rating := dd_add (cumulative_rating b) k (int br),
                              rating_groupings := g\<rparr>))
      else Inr b)"

text \<open>\<open>br = book.rating; if br:\<close> skips a book whose rating is \<open>None\<close> or \<open>0\<close>.\<close>

definition br_count_book ::
  "('k \<Rightarrow> bool) \<Rightarrow> bool \<Rightarrow> string \<Rightarrow> 'k book \<Rightarrow> 'k BestRankedReport
     \<Rightarrow> pyerror + 'k BestRankedReport" where
  "br_count_book truthy ignore_undefined key_attribute bk b =
     (case rating bk of
        None \<Rightarrow> Inr b
      | Some br \<Rightarrow>
          (if br = 0 then Inr b
           else fold_err (br_count truthy ignore_undefined br)
                  (property_as_sequence bk key_attribute) b))"

definition BestRankedReport_init ::
  "('k \<Rightarrow> bool) \<Rightarrow> 'k book list \<Rightarrow> string \<Rightarrow> bool \<Rightarrow> bool \<Rightarrow> pyerror + 'k BestRankedReport" where
  "BestRankedReport_init truthy books key_attribute ignore_single ignore_undefined =
     fold_err (br_count_book truthy ignore_undefined key_attribute) books
       \<lparr>ignore_single_book_groups_br = ignore_single, rated_count = [],
        cumulative_rating = [], rating_groupings = [], stats_br = None\<rparr>"

text \<open>The loop body of \<open>process\<close> for one item \<open>(k, rdr)\<close> of \<open>rated_count\<close>.\<close>

definition br_process_item ::
  "'k \<times> int \<Rightarrow> 'k BestRankedReport \<Rightarrow> pyerror + 'k BestRankedReport" where
  "br_process_item it b =
     (case truediv (dd_lookup 0 (cumulative_rating b) (fst it)) (snd it) of
        Inl e \<Rightarrow> Inl e
      | Inr av \<Rightarrow>
          Inr (b\<lparr>cumulative_rating := dd_touch 0 (cumulative_rating b) (fst it),
                 stats_br :=
                   (if \<not> ignore_single_book_groups_br b \<or> 1 < snd it
                    then map_option
                      (\<lambda>ss. ss @ [\<lparr>key_br = fst it, average_rating = av,
                                    number_of_books_rated = snd it\<rparr>])
                      (stats_br b)
                    else stats_br b)\<rparr>))"

definition BestRankedReport_process ::
  "'k BestRankedReport \<Rightarrow> pyerror + 'k BestRankedReport" where
  "BestRankedReport_process b =
     fold_err br_process_item (rated_count b) (b\<lparr>stats_br := Some []\<rparr>)"

text \<open>
  \<open>br_new_stats b it\<close> is what one turn of the loop of \<open>process\<close> adds to \<open>stats\<close> for the item
  \<open>it\<close>. \<open>br_inv\<close> is what the constructor establishes: \<open>cumulative_rating\<close> has the keys of
  \<open>rated_count\<close>, in the same order, and every count in \<open>rated_count\<close> is at least one.
\<close>

definition br_new_stats :: "'k BestRankedReport \<Rightarrow> 'k \<times> int \<Rightarrow> 'k BestRankedStat list" where
  "br_new_stats b it =
     (if \<not> ignore_single_book_groups_br b \<or> 1 < snd it
      then (case truediv (dd_lookup 0 (cumulative_rating b) (fst it)) (snd it) of
              Inl e \<Rightarrow> []
            | Inr av \<Rightarrow> [\<lparr>key_br = fst it, average_rating = av,
                          number_of_books_rated = snd it\<rparr>])
      else [])"

definition br_inv :: "'k BestRankedReport \<Rightarrow> bool" where
  "br_inv b \<longleftrightarrow>
     map fst (cumulative_rating b) = map fst (rated_count b)
     \<and> (\<forall>it. it \<in> set (rated_count b) \<longrightarrow> 1 \<le> snd it)"

section \<open>The Book entity\<close>

text \<open>
  Modelled from the spec: the \<open>date\<close> values of the Book (\<open>utils/book.py\<close> is missing). A
  date is year, month and day, and dates compare in that order.
\<close>

type_synonym date = "nat \<times> nat \<times> nat"

definition date_less :: "date \<Rightarrow> date \<Rightarrow> bool" where
  "date_less a b \<longleftrightarrow>
     fst a < fst b
     \<or> (fst a = fst b
        \<and> (fst (snd a) < fst (snd b)
           \<or> (fst (snd a) = fst (snd b) \<and> snd (snd a) < snd (snd b))))"

text \<open>
  Modelled from the spec: the parsing of the two date fields, part of the missing \<open>Book\<close>
  constructor. "Parse dates from a fixed \<open>YYYY/MM/DD\<close> text format; absent/blank date fields
  yield an absent value." A text that is neither blank nor a calendar date in that format is
  rejected with \<open>ValueError\<close>.
\<close>

definition is_digit :: "char \<Rightarrow> bool" where
  "is_digit c \<longleftrightarrow> c \<in> set ''0123456789''"

definition digit_val :: "char \<Rightarrow> nat" where
  "digit_val c = of_char c - 48"

definition number_of :: "string \<Rightarrow> nat" where
  "number_of s = foldl (\<lambda>n c. 10 * n + digit_val c) 0 s"

definition leap_year :: "nat \<Rightarrow> bool" where
  "leap_year y \<longleftrightarrow> y mod 4 = 0 \<and> (y mod 100 \<noteq> 0 \<or> y mod 400 = 0)"

definition days_in_month :: "nat \<Rightarrow> nat \<Rightarrow> nat" where
  "days_in_month y m =
     (if m = 2 then (if leap_year y then 29 else 28)
      else if m = 4 \<or> m = 6 \<or> m = 9 \<or> m = 11 then 30 else 31)"

definition valid_ymd :: "nat \<Rightarrow> nat \<Rightarrow> nat \<Rightarrow> bool" where
  "valid_ymd y m d \<longleftrightarrow> 1 \<le> y \<and> 1 \<le> m \<and> m \<le> 12 \<and> 1 \<le> d \<and> d \<le> days_in_month y m"

definition date_shaped :: "string \<Rightarrow> bool" where
  "date_shaped s \<longleftrightarrow>
     length s = 10 \<and> list_all is_digit (take 4 s) \<and> s ! 4 = CHR ''/''
     \<and> list_all is_digit (take 2 (drop 5 s)) \<and> s ! 7 = CHR ''/''
     \<and> list_all is_digit (drop 8 s)"

definition parse_date :: "string \<Rightarrow> pyerror + date option" where
  "parse_date s =
     (if s = [] then Inr None
      else if date_shaped s
              \<and> valid_ymd (number_of (take 4 s)) (number_of (take 2 (drop 5 s)))
                   (number_of (drop 8 s))
      then Inr (Some (number_of (take 4 s), number_of (take 2 (drop 5 s)), number_of (drop 8 s)))
      else Inl ValueError)"


text \<open>
  Modelled from the spec: the fields the missing \<open>Book\<close> constructor takes from the raw record
  (section 6 lists the columns). The names of the fields are those that patch rules and
  tests use (\<open>title\<close>, \<open>author\<close>, \<open>year_published\<close>, \<open>state\<close>, \<open>pagination\<close> in
  \<open>test_patching\<close>); a field holds the raw text of its column.
\<close>

definition FIELD_COLUMNS :: "(string \<times> string) list" where
  "FIELD_COLUMNS =
     [(''title'', ''Title''),
      (''author'', ''Author''),
      (''additional_authors'', ''Additional Authors''),
      (''originally_published_year'', ''Original Publication Year''),
      (''publisher'', ''Publisher''),
      (''year_published'', ''Year Published''),
      (''pagination'', ''Number of Pages''),
      (''binding'', ''Binding''),
      (''average_rating'', ''Average Rating''),
      (''book_id'', ''Book Id''),
      (''state'', ''Exclusive Shelf''),
      (''bookshelves'', ''Bookshelves''),
      (''rating'', ''My Rating''),
      (''date_added'', ''Date Added''),
      (''date_read'', ''Date Read''),
      (''read_count'', ''Read Count'')]"

definition raw_fields :: "(string \<rightharpoonup> string) \<Rightarrow> (string \<rightharpoonup> string)" where
  "raw_fields row f = (case map_of FIELD_COLUMNS f of None \<Rightarrow> None | Some col \<Rightarrow> row col)"

text \<open>
  Modelled from the spec: a patch rule of the missing \<open>Book\<close> constructor, "a pair (list of
  (field, exact-value) match conditions, list of (field, new-value) assignments)". A rule
  matches when every condition holds of the given field values; its assignments override the
  fields they name.
\<close>

type_synonym patch = "(string \<times> string) list \<times> (string \<times> string) list"

definition patch_matches :: "(string \<rightharpoonup> string) \<Rightarrow> (string \<times> string) list \<Rightarrow> bool" where
  "patch_matches flds conds \<longleftrightarrow> list_all (\<lambda>c. flds (fst c) = Some (snd c)) conds"

definition apply_assignments ::
  "(string \<times> string) list \<Rightarrow> (string \<rightharpoonup> string) \<Rightarrow> (string \<rightharpoonup> string)" where
  "apply_assignments assigns flds = fold (\<lambda>a m. m(fst a \<mapsto> snd a)) assigns flds"

text \<open>
  Modelled from the spec: the patch overlay of the missing \<open>Book\<close> constructor, in the words
  of section 3: "at most the assignments from the first patch whose every condition matches
  the record's original raw values are applied".
\<close>

definition apply_patches :: "(string \<rightharpoonup> string) \<Rightarrow> patch list \<Rightarrow> (string \<rightharpoonup> string)" where
  "apply_patches orig patches =
     (case find (\<lambda>p. patch_matches orig (fst p)) patches of
        None \<Rightarrow> orig
      | Some p \<Rightarrow> apply_assignments (snd p) orig)"

text \<open>
  Modelled from the spec: the missing \<open>Book\<close> class, as far as the properties below need it:
  the field values after patching, the two parsed dates and the as-of date.
\<close>

record Book =
  field_values :: "string \<rightharpoonup> string"
  date_added :: "date option"
  date_read :: "date option"
  as_of_date :: "date option"

text \<open>
  Modelled from the spec: the missing \<open>Book\<close> constructor. The patches are applied, the dates
  are parsed, and "if \<open>as_of_date\<close> is provided and is strictly earlier than the parsed
  add-date, fail with a \<open>NotOwnedAtSpecifiedDateError\<close>". A record without the column of a
  date raises \<open>KeyError\<close>.
\<close>

definition parse_field :: "(string \<rightharpoonup> string) \<Rightarrow> string \<Rightarrow> pyerror + date option" where
  "parse_field flds f = (case flds f of None \<Rightarrow> Inl KeyError | Some s \<Rightarrow> parse_date s)"

definition not_owned :: "date option \<Rightarrow> date option \<Rightarrow> bool" where
  "not_owned as_of added =
     (case as_of of
        None \<Rightarrow> False
      | Some d \<Rightarrow> (case added of None \<Rightarrow> False | Some a \<Rightarrow> date_less d a))"

definition book_of :: "(string \<rightharpoonup> string) \<Rightarrow> date option \<Rightarrow> pyerror + Book" where
  "book_of flds as_of =
     (case parse_field flds ''date_added'' of
        Inl e \<Rightarrow> Inl e
      | Inr added \<Rightarrow>
          (case parse_field flds ''date_read'' of
             Inl e \<Rightarrow> Inl e
           | Inr rd \<Rightarrow>
               (if not_owned as_of added then Inl NotOwnedAtSpecifiedDateError
                else Inr \<lparr>field_values = flds, date_added = added, date_read = rd,
                          as_of_date = as_of\<rparr>)))"

definition Book_init :: "(string \<rightharpoonup> string) \<Rightarrow> date option \<Rightarrow> patch list \<Rightarrow> pyerror + Book" where
  "Book_init row as_of patches = book_of (apply_patches (raw_fields row) patches) as_of"

text \<open>
  Modelled from the spec: the missing property \<open>is_read\<close>. A book is read when its exclusive
  shelf is \<open>read\<close>; with an as-of date, "if \<open>as_of_date\<close> is provided and is earlier than the
  read-date (or the book is unread), the as-of view must report the book as unread". The
  property \<open>date_read\<close> is the field \<open>date_read\<close> of the record: the parsed read-date, whatever
  the as-of date.
\<close>

definition is_read :: "Book \<Rightarrow> bool" where
  "is_read bk \<longleftrightarrow>
     field_values bk ''state'' = Some ''read''
     \<and> (case as_of_date bk of
          None \<Rightarrow> True
        | Some d \<Rightarrow> (case date_read bk of None \<Rightarrow> False | Some rd \<Rightarrow> \<not> date_less d rd))"

text \<open>
  \<open>MOCK_BOOK\<close> and the patches of \<open>test_patching\<close>, from \<open>utils/tests/test_book.py\<close>.
\<close>

definition MOCK_BOOK :: "string \<rightharpoonup> string" where
  "MOCK_BOOK = map_of
     [(''Title'', ''A Mock Book''),
      (''Author'', ''Mick Mock''),
      (''Additional Authors'', ''Terry Test, Peter Python''),
      (''Original Publication Year'', ''2001''),
      (''Publisher'', ''Mock Corp''),
      (''Year Published'', ''2002''),
      (''Number of Pages'', ''123''),
      (''Binding'', ''Paperback''),
      (''Average Rating'', ''1.23''),
      (''Book Id'', ''12345678''),
      (''Exclusive Shelf'', ''read''),
      (''Bookshelves'', ''testing, mocking, software, python''),
      (''My Rating'', ''4''),
      (''Date Added'', ''2012/12/22''),
      (''Date Read'', ''2015/12/25''),
      (''Read Count'', ''1'')]"

definition test_patches :: "patch list" where
  "test_patches =
     [([(''title'', ''A Mock Book''), (''author'', ''Mick Mock'')],
       [(''year_published'', ''2019'')]),
      ([(''author'', ''Mick Mock'')],
       [(''state'', ''to-read'')]),
      ([(''title'', ''This Will Not Be Applied'')],
       [(''pagination'', ''999'')])]"

text \<open>
  Modelled from the spec: the missing title parser \<open>_series_and_volume\<close>, after the steps of
  section 4.1.
  \<^item> The parenthetical is the balanced group that ends the title; a title that does not end
    in \<open>)\<close> has none and the result is \<open>None\<close>.
  \<^item> Step 2, the volume token of a segment: the first \<open>#\<close> that a digit follows, with the
    digits, points and hyphens after it; failing that, a number that ends the segment after
    a blank (the number after the word \<open>Book\<close> is such a number).
  \<^item> Steps 2, 3 and 5, a segment without comma: the series name is the text before the token
    (the whole segment when there is no token), without trailing blanks, without a trailing
    word \<open>Book\<close>, without the suffix word \<open>Trilogy\<close> (section 3: "any recognized
    series-indicator suffix word stripped") and without a leading \<open>The\<close>.
  \<^item> Steps 1 and 4, a content with a comma: it is split at its first comma; the series name is
    the segment before the comma without a leading \<open>The\<close>, the volume token is looked for in
    the segment after it.
  \<^item> The multiple-series rule: when the segment before the first comma has a volume token of
    its own it is a series reference by itself, and "only the first series/volume pair is
    extracted": that segment is parsed alone.
  \<^item> Step 6: an empty series name gives \<open>None\<close>.

  The title tests of \<open>test_book.py\<close> and the results the spec states are evaluated below
  (lemmas \<open>title_0\<close> to \<open>title_13\<close>). The model gives the expected result on all but one:
  on \<open>Foo Bar (I Came, I Saw, I Conquered #3)\<close> steps 1 and 4 give the series \<open>I Came\<close>,
  where \<open>test_book_with_comma_in_series_name\<close> expects \<open>I Came, I Saw, I Conquered\<close>.
\<close>

fun scan_back :: "nat \<Rightarrow> string \<Rightarrow> string \<Rightarrow> string option" where
  "scan_back d acc [] = None"
| "scan_back d acc (c # cs) =
     (if c = CHR ''('' then (if d = 0 then Some acc else scan_back (d - 1) (c # acc) cs)
      else if c = CHR '')'' then scan_back (Suc d) (c # acc) cs
      else scan_back d (c # acc) cs)"

definition trailing_parenthetical :: "string \<Rightarrow> string option" where
  "trailing_parenthetical title =
     (case rev title of
        [] \<Rightarrow> None
      | c # cs \<Rightarrow> if c = CHR '')'' then scan_back 0 [] cs else None)"

definition is_volchar :: "char \<Rightarrow> bool" where
  "is_volchar c \<longleftrightarrow> is_digit c \<or> c = CHR ''.'' \<or> c = CHR ''-''"

fun split_hash :: "string \<Rightarrow> (string \<times> string) option" where
  "split_hash (c # d # cs) =
     (if c = CHR ''#'' \<and> is_digit d then Some ([], d # cs)
      else map_option (\<lambda>p. (c # fst p, snd p)) (split_hash (d # cs)))"
| "split_hash cs = None"

definition trailing_number :: "string \<Rightarrow> string" where
  "trailing_number s = rev (takeWhile is_volchar (rev s))"

definition before_trailing_number :: "string \<Rightarrow> string" where
  "before_trailing_number s = rev (dropWhile is_volchar (rev s))"

definition split_trailing_number :: "string \<Rightarrow> (string \<times> string) option" where
  "split_trailing_number s =
     (if trailing_number s \<noteq> [] \<and> is_digit (hd (trailing_number s))
         \<and> before_trailing_number s \<noteq> [] \<and> last (before_trailing_number s) = CHR '' ''
      then Some (before_trailing_number s, trailing_number s) else None)"

definition rstrip :: "string \<Rightarrow> string" where
  "rstrip s = rev (dropWhile (\<lambda>c. c = CHR '' '') (rev s))"

definition strip_suffix :: "string \<Rightarrow> string \<Rightarrow> string" where
  "strip_suffix suf s =
     (if length suf \<le> length s \<and> drop (length s - length suf) s = suf
      then take (length s - length suf) s else s)"

definition strip_prefix :: "string \<Rightarrow> string \<Rightarrow> string" where
  "strip_prefix pre s = (if take (length pre) s = pre then drop (length pre) s else s)"

definition clean_name :: "string \<Rightarrow> string" where
  "clean_name n =
     strip_prefix ''The ''
       (strip_suffix '' Trilogy'' (rstrip (strip_suffix '' Book'' (rstrip n))))"

definition series_pair :: "string \<Rightarrow> string option \<Rightarrow> (string \<times> string option) option" where
  "series_pair name vol = (if name = [] then None else Some (name, vol))"

fun split_first_comma :: "string \<Rightarrow> (string \<times> string) option" where
  "split_first_comma [] = None"
| "split_first_comma (c # cs) =
     (if c = CHR '','' then Some ([], cs)
      else map_option (\<lambda>p. (c # fst p, snd p)) (split_first_comma cs))"

definition volume_token :: "string \<Rightarrow> string option" where
  "volume_token seg =
     (case split_hash seg of
        Some p \<Rightarrow> Some (takeWhile is_volchar (snd p))
      | None \<Rightarrow> map_option snd (split_trailing_number seg))"

definition name_before_token :: "string \<Rightarrow> string" where
  "name_before_token seg =
     (case split_hash seg of
        Some p \<Rightarrow> fst p
      | None \<Rightarrow> (case split_trailing_number seg of Some p \<Rightarrow> fst p | None \<Rightarrow> seg))"

definition parse_segment :: "string \<Rightarrow> (string \<times> string option) option" where
  "parse_segment seg = series_pair (clean_name (name_before_token seg)) (volume_token seg)"

definition parse_series :: "string \<Rightarrow> (string \<times> string option) option" where
  "parse_series content =
     (case split_first_comma content of
        None \<Rightarrow> parse_segment content
      | Some p \<Rightarrow>
          (if volume_token (fst p) \<noteq> None then parse_segment (fst p)
           else series_pair (strip_prefix ''The '' (fst p)) (volume_token (snd p))))"

definition series_and_volume :: "string \<Rightarrow> (string \<times> string option) option" where
  "series_and_volume title =
     (case trailing_parenthetical title of
        None \<Rightarrow> None
      | Some content \<Rightarrow> parse_series content)"


text \<open>
  Modelled from the spec: properties of the missing \<open>Book\<close> class (section 3).
  \<open>Additional Authors\<close> and \<open>Bookshelves\<close> are comma-space-separated lists, blank for the
  empty list. \<open>shelves\<close> is the shelf tags together with the exclusive shelf; \<open>user_shelves\<close>
  is the shelf tags without the system-generated names, taken to be the three exclusive
  shelves the spec names; \<open>all_authors\<close> is the primary author and the additional ones. A
  numeric field is absent when blank; \<open>rating\<close> is absent for 0; \<open>year\<close> is the smaller of the
  original publication year and the year published when both are present, else the one that
  is present; \<open>decade\<close> is the decade of \<open>year\<close> as \<open>test_book_basic\<close> writes it (\<open>2000s\<close>);
  \<open>series\<close> and \<open>volume_number\<close> are the two parts of what the title parser returns.
\<close>

fun split_comma_space :: "string \<Rightarrow> string list" where
  "split_comma_space [] = [[]]"
| "split_comma_space [c] = [[c]]"
| "split_comma_space (c # d # cs) =
     (if c = CHR '','' \<and> d = CHR '' '' then [] # split_comma_space cs
      else (case split_comma_space (d # cs) of
              [] \<Rightarrow> [[c]]
            | w # ws \<Rightarrow> (c # w) # ws))"

definition comma_list :: "string \<Rightarrow> string list" where
  "comma_list s = (if s = [] then [] else split_comma_space s)"

definition field :: "Book \<Rightarrow> string \<Rightarrow> pyerror + string" where
  "field bk f = (case field_values bk f of None \<Rightarrow> Inl KeyError | Some v \<Rightarrow> Inr v)"

definition int_of_text :: "string \<Rightarrow> pyerror + nat" where
  "int_of_text s =
     (if s \<noteq> [] \<and> list_all is_digit s then Inr (number_of s) else Inl ValueError)"

definition int_field :: "Book \<Rightarrow> string \<Rightarrow> pyerror + nat option" where
  "int_field bk f =
     (case field bk f of
        Inl e \<Rightarrow> Inl e
      | Inr s \<Rightarrow> if s = [] then Inr None else map_sum id Some (int_of_text s))"

definition Book_rating :: "Book \<Rightarrow> pyerror + nat option" where
  "Book_rating bk =
     (case field bk ''rating'' of
        Inl e \<Rightarrow> Inl e
      | Inr s \<Rightarrow> (case int_of_text s of
                    Inl e \<Rightarrow> Inl e
                  | Inr n \<Rightarrow> Inr (if n = 0 then None else Some n)))"

definition smaller_year :: "nat option \<Rightarrow> nat option \<Rightarrow> nat option" where
  "smaller_year a b =
     (case a of
        None \<Rightarrow> b
      | Some x \<Rightarrow> (case b of None \<Rightarrow> Some x | Some y \<Rightarrow> Some (min x y)))"

definition year :: "Book \<Rightarrow> pyerror + nat option" where
  "year bk =
     (case int_field bk ''originally_published_year'' of
        Inl e \<Rightarrow> Inl e
      | Inr a \<Rightarrow> map_sum id (smaller_year a) (int_field bk ''year_published''))"

definition decade :: "Book \<Rightarrow> pyerror + string option" where
  "decade bk = map_sum id (map_option (\<lambda>y. digits (10 * (y div 10)) @ ''s'')) (year bk)"

definition series :: "Book \<Rightarrow> pyerror + string option" where
  "series bk = map_sum id (\<lambda>t. map_option fst (series_and_volume t)) (field bk ''title'')"

definition volume_number :: "Book \<Rightarrow> pyerror + string option" where
  "volume_number bk =
     map_sum id (\<lambda>t. case series_and_volume t of None \<Rightarrow> None | Some p \<Rightarrow> snd p)
       (field bk ''title'')"

definition additional_authors :: "Book \<Rightarrow> pyerror + string list" where
  "additional_authors bk = map_sum id comma_list (field bk ''additional_authors'')"

definition all_authors :: "Book \<Rightarrow> pyerror + string list" where
  "all_authors bk =
     (case field bk ''author'' of
        Inl e \<Rightarrow> Inl e
      | Inr a \<Rightarrow> map_sum id (\<lambda>more. a # more) (additional_authors bk))"

definition shelves :: "Book \<Rightarrow> pyerror + string list" where
  "shelves bk =
     (case field bk ''bookshelves'' of
        Inl e \<Rightarrow> Inl e
      | Inr tags \<Rightarrow> map_sum id (\<lambda>st. remdups (comma_list tags @ [st])) (field bk ''state''))"

definition SYSTEM_SHELVES :: "string list" where
  "SYSTEM_SHELVES = [''read'', ''currently-reading'', ''to-read'']"

definition user_shelves :: "Book \<Rightarrow> pyerror + string list" where
  "user_shelves bk =
     map_sum id (\<lambda>tags. remdups (filter (\<lambda>t. t \<notin> set SYSTEM_SHELVES) (comma_list tags)))
       (field bk ''bookshelves'')"

text \<open>
  Modelled from the spec: the value a property of the missing \<open>Book\<close> class has when it is
  looked up by name, and the lookup for the properties above. A property is plural (a
  collection of strings: shelves, authors) or singular (a string or a number, or absent). A
  name that is no property raises \<open>AttributeError\<close>.
\<close>

datatype pyval = PStr string | PInt int

datatype pyattr = Plural "string list" | Singular "pyval option"

definition plural_of :: "pyerror + string list \<Rightarrow> pyerror + pyattr" where
  "plural_of r = map_sum id Plural r"

definition text_of :: "pyerror + string option \<Rightarrow> pyerror + pyattr" where
  "text_of r = map_sum id (\<lambda>v. Singular (map_option PStr v)) r"

definition number_of_attr :: "pyerror + nat option \<Rightarrow> pyerror + pyattr" where
  "number_of_attr r = map_sum id (\<lambda>v. Singular (map_option (\<lambda>n. PInt (int n)) v)) r"

definition Book_getattr :: "Book \<Rightarrow> string \<Rightarrow> pyerror + pyattr" where
  "Book_getattr bk attr =
     (if attr = ''shelves'' then plural_of (shelves bk)
      else if attr = ''user_shelves'' then plural_of (user_shelves bk)
      else if attr = ''additional_authors'' then plural_of (additional_authors bk)
      else if attr = ''all_authors'' then plural_of (all_authors bk)
      else if attr = ''rating'' then number_of_attr (Book_rating bk)
      else if attr = ''year'' then number_of_attr (year bk)
      else if attr \<in> set [''pagination'', ''year_published'', ''originally_published_year'']
      then number_of_attr (int_field bk attr)
      else if attr = ''decade'' then text_of (decade bk)
      else if attr = ''series'' then text_of (series bk)
      else if attr = ''volume_number'' then text_of (volume_number bk)
      else if attr \<in> set [''title'', ''author'', ''state'', ''publisher'', ''binding'']
      then text_of (map_sum id Some (field bk attr))
      else Inl AttributeError)"

text \<open>
  Modelled from the spec: the missing accessors \<open>property_as_sequence\<close> and
  \<open>property_as_hashable\<close> (section 4.1). They work on the value of any property, whatever the
  lookup by name \<open>getattr\<close> of the class yields: "a plural property yields its natural
  multi-value sequence; a singular property is wrapped into a one-element sequence, and an
  absent singular value yields an empty sequence"; the other accessor "returns the same
  values as an ordered, hashable tuple". A set has no order of its own, and the sequence has
  its elements in the order the set was built; the tuple of a plural property is sorted
  (\<open>test_book_basic\<close> expects the shelves in sorted order).
\<close>

definition as_sequence :: "pyattr \<Rightarrow> pyval list" where
  "as_sequence v =
     (case v of
        Plural names \<Rightarrow> map PStr names
      | Singular x \<Rightarrow> (case x of None \<Rightarrow> [] | Some y \<Rightarrow> [y]))"

definition as_hashable :: "pyattr \<Rightarrow> pyval list" where
  "as_hashable v =
     (case v of
        Plural names \<Rightarrow> map PStr (sort names)
      | Singular x \<Rightarrow> (case x of None \<Rightarrow> [] | Some y \<Rightarrow> [y]))"

definition Book_property_as_sequence ::
  "(Book \<Rightarrow> string \<Rightarrow> pyerror + pyattr) \<Rightarrow> Book \<Rightarrow> string \<Rightarrow> pyerror + pyval list" where
  "Book_property_as_sequence getattr bk attr = map_sum id as_sequence (getattr bk attr)"

definition Book_property_as_hashable ::
  "(Book \<Rightarrow> string \<Rightarrow> pyerror + pyattr) \<Rightarrow> Book \<Rightarrow> string \<Rightarrow> pyerror + pyval list" where
  "Book_property_as_hashable getattr bk attr = map_sum id as_hashable (getattr bk attr)"

text \<open>
  The Book that \<open>test_book_basic\<close> constructs, \<open>Book(MOCK_BOOK)\<close> (lemma \<open>mock_init\<close> below).
\<close>

definition MOCK :: Book where
  "MOCK = \<lparr>field_values = raw_fields MOCK_BOOK, date_added = Some (2012, 12, 22),
            date_read = Some (2015, 12, 25), as_of_date = None\<rparr>"

section \<open>Evaluating the percentage\<close>

lemma truediv_1_4: "truediv 1 4 = Inr (4503599627370496, - 54)"
  by code_simp

lemma truediv_29_50: "truediv 29 50 = Inr (5224175567749775, - 53)"
  by code_simp

lemma float_of_int_100: "float_of_int 100 = (7036874417766400, - 46)"
  by code_simp

lemma float_mul_100_quarter:
  "float_mul (7036874417766400, - 46) (4503599627370496, - 54) = (7036874417766400, - 48)"
  by code_simp

lemma float_mul_100_29_50:
  "float_mul (7036874417766400, - 46) (5224175567749775, - 53) = (8162774324609023, - 47)"
  by code_simp

lemma int_of_float_25: "int_of_float (7036874417766400, - 48) = 25"
  by code_simp

lemma int_of_float_57: "int_of_float (8162774324609023, - 47) = 57"
  by code_simp

lemma percentage_1_3: "percentage 1 3 = Inr 25"
  by (simp add: percentage_def truediv_1_4 float_of_int_100 float_mul_100_quarter
      int_of_float_25)

lemma percentage_29_21: "percentage 29 21 = Inr 57"
  by (simp add: percentage_def truediv_29_50 float_of_int_100 float_mul_100_29_50
      int_of_float_57)

section \<open>Dictionaries: what a read and a store do\<close>

lemma map_of_dict_set: "map_of (dict_set k v t) = (map_of t)(k \<mapsto> v)"
  by (induction t) (auto simp: fun_eq_iff)

lemma keys_dict_set:
  "map fst (dict_set k v t) = (if k \<in> fst ` set t then map fst t else map fst t @ [k])"
  by (induction t) auto

lemma dd_lookup_dict_set:
  "dd_lookup d (dict_set k v t) k' = (if k' = k then v else dd_lookup d t k')"
  by (simp add: dd_lookup_def map_of_dict_set)

lemma map_of_append_new: "map_of t k = None \<Longrightarrow> map_of (t @ [(k, d)]) = (map_of t)(k \<mapsto> d)"
  by (auto simp: fun_eq_iff map_add_def split: option.splits)

lemma dd_lookup_touch: "dd_lookup d (dd_touch d t k) k' = dd_lookup d t k'"
  by (auto simp: dd_lookup_def dd_touch_def map_add_def split: option.splits)

lemma keys_dd_touch:
  "map fst (dd_touch d t k) = (if k \<in> fst ` set t then map fst t else map fst t @ [k])"
  by (auto simp: dd_touch_def map_of_eq_None_iff split: option.splits dest: map_of_SomeD
      intro: rev_image_eqI)

lemma dd_touch_present: "k \<in> fst ` set t \<Longrightarrow> dd_touch d t k = t"
  by (auto simp: dd_touch_def map_of_eq_None_iff split: option.splits)

lemma dd_lookup_add:
  "dd_lookup 0 (dd_add t k n) k' = (if k' = k then dd_lookup 0 t k + n else dd_lookup 0 t k')"
  by (simp add: dd_add_def dd_lookup_dict_set dd_lookup_touch)

lemma in_keys_dd_touch: "k \<in> fst ` set (dd_touch d t k)"
proof -
  have "k \<in> set (map fst (dd_touch d t k))"
    unfolding keys_dd_touch by simp
  then show ?thesis by simp
qed

lemma keys_dd_add:
  "map fst (dd_add t k n) = (if k \<in> fst ` set t then map fst t else map fst t @ [k])"
  by (simp add: dd_add_def keys_dict_set keys_dd_touch in_keys_dd_touch)

lemma distinct_keys_dd_add: "distinct (map fst t) \<Longrightarrow> distinct (map fst (dd_add t k n))"
  by (auto simp: keys_dd_add)

lemma dd_lookup_absent: "k \<notin> fst ` set t \<Longrightarrow> dd_lookup d t k = d"
proof -
  assume "k \<notin> fst ` set t"
  then have "map_of t k = None" by (simp add: map_of_eq_None_iff)
  then show ?thesis by (simp add: dd_lookup_def)
qed

section \<open>ReadVsUnreadReport: the loop of process\<close>

lemma percentage_ok: "rd + ur \<noteq> 0 \<Longrightarrow> \<exists>p. percentage rd ur = Inr p"
  by (simp add: percentage_def truediv_def)

lemma percentage_zero: "rd + ur = 0 \<Longrightarrow> percentage rd ur = Inl ZeroDivisionError"
  by (simp add: percentage_def truediv_def)

lemma rvu_process_key_eq:
  assumes "dd_lookup 0 (read_count r) k + dd_lookup 0 (unread_count r) k \<noteq> 0"
  shows "rvu_process_key k r =
     Inr (r\<lparr>read_count := dd_touch 0 (read_count r) k,
            unread_count := dd_touch 0 (unread_count r) k,
            stats := map_option (\<lambda>ss. ss @ rvu_new_stats r k) (stats r)\<rparr>)"
proof -
  obtain p where p: "percentage (dd_lookup 0 (read_count r) k) (dd_lookup 0 (unread_count r) k) = Inr p"
    using percentage_ok [OF assms] by blast
  show ?thesis
    by (cases "stats r") (simp_all add: rvu_process_key_def rvu_stat_def rvu_new_stats_def p)
qed

lemma rvu_new_stats_cong:
  assumes "ignore_single_book_groups r' = ignore_single_book_groups r"
    and "dd_lookup 0 (read_count r') k = dd_lookup 0 (read_count r) k"
    and "dd_lookup 0 (unread_count r') k = dd_lookup 0 (unread_count r) k"
  shows "rvu_new_stats r' k = rvu_new_stats r k"
  unfolding rvu_new_stats_def assms by (rule refl)

lemma rvu_loop_eq:
  "\<forall>k \<in> set ks. dd_lookup 0 (read_count r) k + dd_lookup 0 (unread_count r) k \<noteq> 0 \<Longrightarrow>
   fold_err rvu_process_key ks r =
     Inr (r\<lparr>read_count := fold (\<lambda>k t. dd_touch 0 t k) ks (read_count r),
            unread_count := fold (\<lambda>k t. dd_touch 0 t k) ks (unread_count r),
            stats := map_option (\<lambda>ss. ss @ concat (map (rvu_new_stats r) ks)) (stats r)\<rparr>)"
proof (induction ks arbitrary: r)
  case Nil
  show ?case by (cases "stats r") simp_all
next
  case (Cons k ks)
  let ?r1 = "r\<lparr>read_count := dd_touch 0 (read_count r) k,
            unread_count := dd_touch 0 (unread_count r) k,
            stats := map_option (\<lambda>ss. ss @ rvu_new_stats r k) (stats r)\<rparr>"
  have step: "rvu_process_key k r = Inr ?r1"
    using Cons.prems by (intro rvu_process_key_eq) simp
  have pre: "\<forall>k' \<in> set ks. dd_lookup 0 (read_count ?r1) k' + dd_lookup 0 (unread_count ?r1) k' \<noteq> 0"
    using Cons.prems by (simp add: dd_lookup_touch)
  have same: "map (rvu_new_stats ?r1) ks = map (rvu_new_stats r) ks"
    by (intro map_cong refl rvu_new_stats_cong) (simp_all add: dd_lookup_touch)
  show ?case
    unfolding fold_err.simps step sum.case Cons.IH [OF pre] same
    by (cases "stats r") simp_all
qed

section \<open>ReadVsUnreadReport: what the constructor establishes\<close>

lemma in_keys_dd_add: "k' \<in> fst ` set (dd_add t k n) \<longleftrightarrow> k' = k \<or> k' \<in> fst ` set t"
proof -
  have "k' \<in> set (map fst (dd_add t k n)) \<longleftrightarrow> k' = k \<or> k' \<in> set (map fst t)"
    unfolding keys_dd_add by auto
  then show ?thesis by simp
qed

lemma rvu_count_inv: "rvu_inv r \<Longrightarrow> rvu_inv (rvu_count truthy iug bk k r)"
  unfolding rvu_inv_def rvu_count_def
  by (auto simp: dd_lookup_add distinct_keys_dd_add in_keys_dd_add add_nonneg_nonneg
      intro: add_increasing2)

lemma rvu_count_flags:
  "ignore_single_book_groups (rvu_count truthy iug bk k r) = ignore_single_book_groups r"
  "stats (rvu_count truthy iug bk k r) = stats r"
  by (simp_all add: rvu_count_def)

lemma rvu_count_fold_inv: "rvu_inv r \<Longrightarrow> rvu_inv (fold (rvu_count truthy iug bk) ks r)"
  by (induction ks arbitrary: r) (simp_all add: rvu_count_inv)

lemma rvu_count_fold_flags:
  "ignore_single_book_groups (fold (rvu_count truthy iug bk) ks r) = ignore_single_book_groups r"
  "stats (fold (rvu_count truthy iug bk) ks r) = stats r"
  by (induction ks arbitrary: r) (simp_all add: rvu_count_flags)

lemma rvu_books_fold_inv:
  "rvu_inv r \<Longrightarrow>
   rvu_inv (fold (\<lambda>bk. fold (rvu_count truthy iug bk) (property_as_sequence bk attr)) books r)"
  by (induction books arbitrary: r) (simp_all add: rvu_count_fold_inv)

lemma rvu_books_fold_flags:
  "ignore_single_book_groups
     (fold (\<lambda>bk. fold (rvu_count truthy iug bk) (property_as_sequence bk attr)) books r)
   = ignore_single_book_groups r"
  "stats (fold (\<lambda>bk. fold (rvu_count truthy iug bk) (property_as_sequence bk attr)) books r)
   = stats r"
  by (induction books arbitrary: r) (simp_all add: rvu_count_fold_flags)

lemma rvu_init_inv: "rvu_inv (ReadVsUnreadReport_init truthy books attr isg iug)"
  unfolding ReadVsUnreadReport_init_def
  by (rule rvu_books_fold_inv) (simp add: rvu_inv_def dd_lookup_def)

lemma rvu_init_flags:
  "ignore_single_book_groups (ReadVsUnreadReport_init truthy books attr isg iug) = isg"
  "stats (ReadVsUnreadReport_init truthy books attr isg iug) = None"
  by (simp_all add: ReadVsUnreadReport_init_def rvu_books_fold_flags)

lemma rvu_inv_denominator:
  assumes "rvu_inv r" and "k \<in> fst ` set (grouping_count r)"
  shows "dd_lookup 0 (read_count r) k + dd_lookup 0 (unread_count r) k \<noteq> 0"
proof -
  have "1 \<le> dd_lookup 0 (grouping_count r) k"
    using assms unfolding rvu_inv_def by blast
  moreover have "dd_lookup 0 (grouping_count r) k
      = dd_lookup 0 (read_count r) k + dd_lookup 0 (unread_count r) k"
    using assms(1) unfolding rvu_inv_def by blast
  ultimately show ?thesis by simp
qed

lemma rvu_process_eq:
  assumes "rvu_inv r"
  shows "ReadVsUnreadReport_process r =
     Inr (r\<lparr>read_count := fold (\<lambda>k t. dd_touch 0 t k) (map fst (grouping_count r)) (read_count r),
            unread_count := fold (\<lambda>k t. dd_touch 0 t k) (map fst (grouping_count r)) (unread_count r),
            stats := Some (concat (map (rvu_new_stats r) (map fst (grouping_count r))))\<rparr>)"
proof -
  let ?r0 = "r\<lparr>stats := Some []\<rparr>"
  have pre: "\<forall>k \<in> set (map fst (grouping_count r)).
      dd_lookup 0 (read_count ?r0) k + dd_lookup 0 (unread_count ?r0) k \<noteq> 0"
    using rvu_inv_denominator [OF assms] by simp
  have same: "map (rvu_new_stats ?r0) (map fst (grouping_count r))
      = map (rvu_new_stats r) (map fst (grouping_count r))"
    by (intro map_cong refl rvu_new_stats_cong) simp_all
  show ?thesis
    unfolding ReadVsUnreadReport_process_def rvu_loop_eq [OF pre] same
    by simp
qed

section \<open>BestRankedReport: what the constructor establishes\<close>

lemma fold_err_inv:
  assumes "\<And>x s s'. P s \<Longrightarrow> f x s = Inr s' \<Longrightarrow> P s'"
  shows "P s \<Longrightarrow> fold_err f xs s = Inr s' \<Longrightarrow> P s'"
proof (induction xs arbitrary: s)
  case Nil
  then show ?case by simp
next
  case (Cons x xs)
  then show ?case
    by (cases "f x s") (auto intro: assms)
qed

lemma set_dict_set: "set (dict_set k v t) \<subseteq> insert (k, v) (set t)"
  by (induction t) auto

lemma dd_lookup_pos:
  assumes "\<forall>it. it \<in> set t \<longrightarrow> 1 \<le> snd it"
  shows "0 \<le> dd_lookup (0::int) t k"
proof (cases "map_of t k")
  case None
  then show ?thesis by (simp add: dd_lookup_def)
next
  case (Some v)
  then have "(k, v) \<in> set t" by (rule map_of_SomeD)
  then have "1 \<le> v" using assms by fastforce
  then show ?thesis using Some by (simp add: dd_lookup_def)
qed

lemma dict_set_append_new:
  "k \<notin> fst ` set t \<Longrightarrow> dict_set k v (t @ [(k, d)]) = t @ [(k, v)]"
  by (induction t) auto

lemma dd_add_absent:
  assumes "k \<notin> fst ` set t"
  shows "dd_add t k n = t @ [(k, n)]"
proof -
  have "map_of t k = None" using assms by (simp add: map_of_eq_None_iff)
  then show ?thesis
    using assms by (simp add: dd_add_def dd_touch_def dd_lookup_def dict_set_append_new)
qed

lemma dd_add_present:
  assumes "k \<in> fst ` set t"
  shows "dd_add t k n = dict_set k (dd_lookup 0 t k + n) t"
  using assms by (simp add: dd_add_def dd_touch_present)

lemma set_dd_add: "set (dd_add t k n) \<subseteq> insert (k, dd_lookup 0 t k + n) (set t)"
proof (cases "k \<in> fst ` set t")
  case True
  then show ?thesis by (simp add: dd_add_present set_dict_set)
next
  case False
  then show ?thesis by (auto simp: dd_add_absent dd_lookup_absent)
qed

lemma dd_add_one_pos:
  assumes "\<forall>it. it \<in> set t \<longrightarrow> 1 \<le> snd it" and "it \<in> set (dd_add t k 1)"
  shows "1 \<le> snd it"
proof -
  have "it = (k, dd_lookup 0 t k + 1) \<or> it \<in> set t"
    using assms(2) set_dd_add [of t k 1] by auto
  then show ?thesis
  proof
    assume "it = (k, dd_lookup 0 t k + 1)"
    then show ?thesis using dd_lookup_pos [OF assms(1), of k] by simp
  next
    assume "it \<in> set t"
    then show ?thesis using assms(1) by blast
  qed
qed

lemma br_count_inv:
  assumes "br_inv b" and "br_count truthy iug br k b = Inr b'"
  shows "br_inv b'"
proof (cases "truthy k \<or> \<not> iug")
  case False
  then show ?thesis using assms by (simp add: br_count_def)
next
  case True
  then obtain g where b': "b' = b\<lparr>rated_count := dd_add (rated_count b) k 1,
      cumulative_rating := dd_add (cumulative_rating b) k (int br), rating_groupings := g\<rparr>"
    using assms(2) by (auto simp: br_count_def split: sum.splits)
  have keys: "map fst (cumulative_rating b) = map fst (rated_count b)"
    using assms(1) by (simp add: br_inv_def)
  have pos: "\<forall>it. it \<in> set (rated_count b) \<longrightarrow> 1 \<le> snd it"
    using assms(1) by (simp add: br_inv_def)
  have "fst ` set (cumulative_rating b) = fst ` set (rated_count b)"
    using keys by (metis list.set_map)
  then have "map fst (dd_add (cumulative_rating b) k (int br))
      = map fst (dd_add (rated_count b) k 1)"
    by (simp add: keys_dd_add keys)
  then show ?thesis
    unfolding br_inv_def b' using dd_add_one_pos [OF pos] by simp
qed

lemma br_count_flag:
  "br_count truthy iug br k b = Inr b' \<Longrightarrow>
   ignore_single_book_groups_br b' = ignore_single_book_groups_br b \<and> stats_br b' = stats_br b"
  by (auto simp: br_count_def split: if_splits sum.splits)

lemma br_count_book_inv:
  assumes "br_inv b" and "br_count_book truthy iug attr bk b = Inr b'"
  shows "br_inv b'"
proof (cases "rating bk")
  case None
  then show ?thesis using assms by (simp add: br_count_book_def)
next
  case (Some br)
  show ?thesis
  proof (cases "br = 0")
    case True
    then show ?thesis using assms Some by (simp add: br_count_book_def)
  next
    case False
    then have f: "fold_err (br_count truthy iug br) (property_as_sequence bk attr) b = Inr b'"
      using assms(2) Some by (simp add: br_count_book_def)
    show ?thesis
      by (rule fold_err_inv [where f = "br_count truthy iug br" and P = br_inv,
            OF _ assms(1) f]) (rule br_count_inv)
  qed
qed

lemma br_count_book_flag:
  assumes "br_count_book truthy iug attr bk b = Inr b'"
  shows "ignore_single_book_groups_br b' = ignore_single_book_groups_br b \<and> stats_br b' = stats_br b"
proof (cases "rating bk")
  case None
  then show ?thesis using assms by (simp add: br_count_book_def)
next
  case (Some br)
  show ?thesis
  proof (cases "br = 0")
    case True
    then show ?thesis using assms Some by (simp add: br_count_book_def)
  next
    case False
    then have f: "fold_err (br_count truthy iug br) (property_as_sequence bk attr) b = Inr b'"
      using assms Some by (simp add: br_count_book_def)
    show ?thesis
      by (rule fold_err_inv [where f = "br_count truthy iug br"
            and P = "\<lambda>x. ignore_single_book_groups_br x = ignore_single_book_groups_br b
                        \<and> stats_br x = stats_br b", OF _ _ f])
         (auto dest: br_count_flag)
  qed
qed

lemma br_init_inv:
  assumes "BestRankedReport_init truthy books attr isg iug = Inr b"
  shows "br_inv b"
proof (rule fold_err_inv [where f = "br_count_book truthy iug attr" and P = br_inv,
      OF _ _ assms [unfolded BestRankedReport_init_def]])
  show "br_inv s'" if "br_inv s" and "br_count_book truthy iug attr x s = Inr s'" for x s s'
    using that by (rule br_count_book_inv)
  show "br_inv \<lparr>ignore_single_book_groups_br = isg, rated_count = [],
      cumulative_rating = [], rating_groupings = [], stats_br = None\<rparr>"
    by (simp add: br_inv_def)
qed

lemma br_init_flags:
  assumes "BestRankedReport_init truthy books attr isg iug = Inr b"
  shows "ignore_single_book_groups_br b = isg \<and> stats_br b = None"
  by (rule fold_err_inv [where f = "br_count_book truthy iug attr"
        and P = "\<lambda>x. ignore_single_book_groups_br x = isg \<and> stats_br x = None",
        OF _ _ assms [unfolded BestRankedReport_init_def]])
     (auto dest: br_count_book_flag)

section \<open>Running process twice\<close>

lemma dd_lookup_fold_touch:
  "dd_lookup d (fold (\<lambda>k t. dd_touch d t k) ks t) k' = dd_lookup d t k'"
  by (induction ks arbitrary: t) (simp_all add: dd_lookup_touch)

lemma keys_fold_touch_mono:
  "fst ` set t \<subseteq> fst ` set (fold (\<lambda>k t. dd_touch d t k) ks t)"
proof (induction ks arbitrary: t)
  case Nil
  show ?case by simp
next
  case (Cons k ks)
  have "fst ` set t \<subseteq> fst ` set (dd_touch d t k)"
    by (auto simp: dd_touch_def split: option.splits)
  then show ?case using Cons.IH [of "dd_touch d t k"] by auto
qed

lemma keys_fold_touch: "set ks \<subseteq> fst ` set (fold (\<lambda>k t. dd_touch d t k) ks t)"
proof (induction ks arbitrary: t)
  case Nil
  show ?case by simp
next
  case (Cons k ks)
  have "k \<in> fst ` set (fold (\<lambda>k t. dd_touch d t k) ks (dd_touch d t k))"
    using keys_fold_touch_mono [of "dd_touch d t k" d ks] in_keys_dd_touch [of k d t] by blast
  then show ?case using Cons.IH [of "dd_touch d t k"] by simp
qed

lemma fold_touch_present:
  "set ks \<subseteq> fst ` set t \<Longrightarrow> fold (\<lambda>k t. dd_touch d t k) ks t = t"
  by (induction ks arbitrary: t) (simp_all add: dd_touch_present)

lemma fold_touch_twice:
  "fold (\<lambda>k t. dd_touch d t k) ks (fold (\<lambda>k t. dd_touch d t k) ks t)
   = fold (\<lambda>k t. dd_touch d t k) ks t"
  by (rule fold_touch_present) (rule keys_fold_touch)

lemma rvu_inv_processed:
  assumes "rvu_inv r"
  shows "rvu_inv (r\<lparr>read_count := fold (\<lambda>k t. dd_touch 0 t k) ks (read_count r),
            unread_count := fold (\<lambda>k t. dd_touch 0 t k) ks (unread_count r),
            stats := s\<rparr>)"
proof -
  have "rvu_inv (r\<lparr>read_count := fold (\<lambda>k t. dd_touch 0 t k) ks (read_count r),
            unread_count := fold (\<lambda>k t. dd_touch 0 t k) ks (unread_count r),
            stats := s\<rparr>) \<longleftrightarrow> rvu_inv r"
    by (simp add: rvu_inv_def dd_lookup_fold_touch)
  then show ?thesis using assms by simp
qed

lemma rvu_process_idem:
  assumes "rvu_inv r" and "ReadVsUnreadReport_process r = Inr r1"
  shows "ReadVsUnreadReport_process r1 = Inr r1"
proof -
  let ?ks = "map fst (grouping_count r)"
  let ?S = "concat (map (rvu_new_stats r) ?ks)"
  have r1: "r1 = r\<lparr>read_count := fold (\<lambda>k t. dd_touch 0 t k) ?ks (read_count r),
            unread_count := fold (\<lambda>k t. dd_touch 0 t k) ?ks (unread_count r),
            stats := Some ?S\<rparr>"
    using assms(2) unfolding rvu_process_eq [OF assms(1)] by simp
  have inv1: "rvu_inv r1"
    unfolding r1 using assms(1) by (rule rvu_inv_processed)
  have same: "map (rvu_new_stats r1) ?ks = map (rvu_new_stats r) ?ks"
    by (intro map_cong refl rvu_new_stats_cong) (simp_all add: r1 dd_lookup_fold_touch)
  have g: "grouping_count r1 = grouping_count r" by (simp add: r1)
  show ?thesis
    unfolding rvu_process_eq [OF inv1] g same
    by (simp add: r1 fold_touch_twice)
qed

lemma br_process_item_eq:
  assumes "snd it \<noteq> 0"
  shows "br_process_item it b =
     Inr (b\<lparr>cumulative_rating := dd_touch 0 (cumulative_rating b) (fst it),
            stats_br := map_option (\<lambda>ss. ss @ br_new_stats b it) (stats_br b)\<rparr>)"
  using assms
  by (cases "stats_br b") (simp_all add: br_process_item_def br_new_stats_def truediv_def)

lemma br_new_stats_cong:
  assumes "ignore_single_book_groups_br b' = ignore_single_book_groups_br b"
    and "dd_lookup 0 (cumulative_rating b') (fst it) = dd_lookup 0 (cumulative_rating b) (fst it)"
  shows "br_new_stats b' it = br_new_stats b it"
  unfolding br_new_stats_def assms by (rule refl)

lemma br_loop_eq:
  "\<forall>it \<in> set its. snd it \<noteq> 0 \<Longrightarrow>
   fold_err br_process_item its b =
     Inr (b\<lparr>cumulative_rating := fold (\<lambda>k t. dd_touch 0 t k) (map fst its) (cumulative_rating b),
            stats_br := map_option (\<lambda>ss. ss @ concat (map (br_new_stats b) its)) (stats_br b)\<rparr>)"
proof (induction its arbitrary: b)
  case Nil
  show ?case by (cases "stats_br b") simp_all
next
  case (Cons it its)
  let ?b1 = "b\<lparr>cumulative_rating := dd_touch 0 (cumulative_rating b) (fst it),
            stats_br := map_option (\<lambda>ss. ss @ br_new_stats b it) (stats_br b)\<rparr>"
  have step: "br_process_item it b = Inr ?b1"
    using Cons.prems by (intro br_process_item_eq) simp
  have pre: "\<forall>it \<in> set its. snd it \<noteq> 0"
    using Cons.prems by simp
  have same: "map (br_new_stats ?b1) its = map (br_new_stats b) its"
    by (intro map_cong refl br_new_stats_cong) (simp_all add: dd_lookup_touch)
  show ?case
    unfolding fold_err.simps step sum.case Cons.IH [OF pre] same
    by (cases "stats_br b") simp_all
qed

lemma br_process_eq:
  assumes "br_inv b"
  shows "BestRankedReport_process b =
     Inr (b\<lparr>stats_br := Some (concat (map (br_new_stats b) (rated_count b)))\<rparr>)"
proof -
  let ?b0 = "b\<lparr>stats_br := Some []\<rparr>"
  have pre: "\<forall>it \<in> set (rated_count b). snd it \<noteq> 0"
    using assms by (fastforce simp: br_inv_def)
  have keys: "set (map fst (rated_count b)) \<subseteq> fst ` set (cumulative_rating ?b0)"
  proof -
    have "map fst (cumulative_rating b) = map fst (rated_count b)"
      using assms by (simp add: br_inv_def)
    then have "fst ` set (cumulative_rating b) = set (map fst (rated_count b))"
      by (metis list.set_map)
    then show ?thesis by simp
  qed
  have same: "map (br_new_stats ?b0) (rated_count b) = map (br_new_stats b) (rated_count b)"
    by (intro map_cong refl br_new_stats_cong) simp_all
  show ?thesis
    unfolding BestRankedReport_process_def br_loop_eq [OF pre] same fold_touch_present [OF keys]
    by simp
qed

lemma br_process_idem:
  assumes "br_inv b" and "BestRankedReport_process b = Inr b1"
  shows "BestRankedReport_process b1 = Inr b1"
proof -
  have b1: "b1 = b\<lparr>stats_br := Some (concat (map (br_new_stats b) (rated_count b)))\<rparr>"
    using assms(2) unfolding br_process_eq [OF assms(1)] by simp
  have inv1: "br_inv b1"
    using assms(1) by (simp add: b1 br_inv_def)
  have same: "map (br_new_stats b1) (rated_count b) = map (br_new_stats b) (rated_count b)"
    by (intro map_cong refl br_new_stats_cong) (simp_all add: b1)
  have g: "rated_count b1 = rated_count b" by (simp add: b1)
  show ?thesis
    unfolding br_process_eq [OF inv1] g same by (simp add: b1)
qed

section \<open>The engines on three example books\<close>

lemma truediv_2_3: "truediv 2 3 = Inr (6004799503160661, - 53)"
  by code_simp

lemma float_mul_100_2_3:
  "float_mul (7036874417766400, - 46) (6004799503160661, - 53) = (4691249611844266, - 46)"
  by code_simp

lemma int_of_float_66: "int_of_float (4691249611844266, - 46) = 66"
  by code_simp

lemma percentage_2_1: "percentage 2 1 = Inr 66"
  by (simp add: percentage_def truediv_2_3 float_of_int_100 float_mul_100_2_3 int_of_float_66)

lemma truediv_9_2: "truediv 9 2 = Inr (5066549580791808, - 50)"
  by code_simp

lemma truediv_4_1: "truediv 4 1 = Inr (4503599627370496, - 50)"
  by code_simp

lemma example_rvu_init:
  "ReadVsUnreadReport_init truthy_str example_books ''shelves'' True True
   = \<lparr>unread_count = [(''sf'', 1)], read_count = [(''sf'', 2), (''classics'', 1)],
      grouping_count = [(''sf'', 3), (''classics'', 1)],
      ignore_single_book_groups = True, stats = None\<rparr>"
  by (simp add: ReadVsUnreadReport_init_def rvu_count_def shelf_book_def truthy_str_def
      example_books_def dd_add_def dd_lookup_def dd_touch_def)

lemma example_rvu_process:
  "ReadVsUnreadReport_process
     \<lparr>unread_count = [(''sf'', 1)], read_count = [(''sf'', 2), (''classics'', 1)],
      grouping_count = [(''sf'', 3), (''classics'', 1)],
      ignore_single_book_groups = True, stats = None\<rparr>
   = Inr \<lparr>unread_count = [(''sf'', 1), (''classics'', 0)],
          read_count = [(''sf'', 2), (''classics'', 1)],
          grouping_count = [(''sf'', 3), (''classics'', 1)],
          ignore_single_book_groups = True,
          stats = Some [\<lparr>key = ''sf'', percentage_read = 66, difference = 1\<rparr>]\<rparr>"
  by (simp add: ReadVsUnreadReport_process_def rvu_process_key_def rvu_stat_def
      dd_lookup_def dd_touch_def percentage_2_1)

lemma example_br_init:
  "BestRankedReport_init truthy_str example_books ''shelves'' False True
   = Inr \<lparr>ignore_single_book_groups_br = False,
          rated_count = [(''sf'', 2), (''classics'', 1)],
          cumulative_rating = [(''sf'', 9), (''classics'', 4)],
          rating_groupings =
            [(''sf'', [None, Some 0, Some 0, Some 0, Some 1, Some 1]),
             (''classics'', [None, Some 0, Some 0, Some 0, Some 1, Some 0])],
          stats_br = None\<rparr>"
  by (simp add: BestRankedReport_init_def br_count_book_def br_count_def bump_rating_def
      example_books_def shelf_book_def truthy_str_def no_ratings_def dd_add_def dd_lookup_def
      dd_touch_def)

lemma example_br_process:
  "BestRankedReport_process
     \<lparr>ignore_single_book_groups_br = False,
          rated_count = [(''sf'', 2), (''classics'', 1)],
          cumulative_rating = [(''sf'', 9), (''classics'', 4)],
          rating_groupings =
            [(''sf'', [None, Some 0, Some 0, Some 0, Some 1, Some 1]),
             (''classics'', [None, Some 0, Some 0, Some 0, Some 1, Some 0])],
          stats_br = None\<rparr>
   = Inr \<lparr>ignore_single_book_groups_br = False,
          rated_count = [(''sf'', 2), (''classics'', 1)],
          cumulative_rating = [(''sf'', 9), (''classics'', 4)],
          rating_groupings =
            [(''sf'', [None, Some 0, Some 0, Some 0, Some 1, Some 1]),
             (''classics'', [None, Some 0, Some 0, Some 0, Some 1, Some 0])],
          stats_br = Some
            [\<lparr>key_br = ''sf'', average_rating = (5066549580791808, - 50),
              number_of_books_rated = 2\<rparr>,
             \<lparr>key_br = ''classics'', average_rating = (4503599627370496, - 50),
              number_of_books_rated = 1\<rparr>]\<rparr>"
  by (simp add: BestRankedReport_process_def br_process_item_def dd_lookup_def dd_touch_def
      truediv_9_2 truediv_4_1)

section \<open>Properties of the reports\<close>

lemma rvu_new_stats_keys:
  assumes "\<forall>k \<in> set ks. dd_lookup 0 (read_count r) k + dd_lookup 0 (unread_count r) k \<noteq> 0"
  shows "key ` set (concat (map (rvu_new_stats r) ks))
     = {k \<in> set ks. \<not> (ignore_single_book_groups r
          \<and> dd_lookup 0 (read_count r) k + dd_lookup 0 (unread_count r) k = 1)}"
  using assms
proof (induction ks)
  case Nil
  show ?case by simp
next
  case (Cons k ks)
  obtain p where p: "percentage (dd_lookup 0 (read_count r) k) (dd_lookup 0 (unread_count r) k) = Inr p"
    using Cons.prems percentage_ok [of "dd_lookup 0 (read_count r) k" "dd_lookup 0 (unread_count r) k"]
    by auto
  have "key ` set (rvu_new_stats r k)
     = (if ignore_single_book_groups r
          \<and> dd_lookup 0 (read_count r) k + dd_lookup 0 (unread_count r) k = 1 then {} else {k})"
    by (simp add: rvu_new_stats_def p)
  then show ?case using Cons by (auto simp: image_Un)
qed

lemma br_new_stats_all:
  assumes "\<not> ignore_single_book_groups_br b" and "\<forall>it \<in> set its. snd it \<noteq> 0"
  shows "map (\<lambda>s. (key_br s, number_of_books_rated s)) (concat (map (br_new_stats b) its)) = its"
  using assms(2)
proof (induction its)
  case Nil
  show ?case by simp
next
  case (Cons it its)
  then show ?case using assms(1) by (simp add: br_new_stats_def truediv_def)
qed

lemma set_dd_touch: "set (dd_touch d t k) \<subseteq> insert (k, d) (set t)"
  by (auto simp: dd_touch_def split: option.splits)

lemma set_fold_touch:
  "it \<in> set (fold (\<lambda>k t. dd_touch d t k) ks t) \<Longrightarrow> it \<in> set t \<or> snd it = d"
proof (induction ks arbitrary: t)
  case Nil
  then show ?case by simp
next
  case (Cons k ks)
  then have "it \<in> set (dd_touch d t k) \<or> snd it = d" by simp
  then show ?case using set_dd_touch [of d t k] by auto
qed

text \<open>
  Claim C5. For every collection of Books and every grouping attribute, no division in
  \<open>ReadVsUnreadReport.process\<close> or \<open>BestRankedReport.process\<close> has a zero denominator: every key of
  \<open>grouping_count\<close> has been counted at least once, as read or as unread, so \<open>rd + ur\<close> is at
  least one and \<open>process\<close> returns without entering the handler of \<open>ZeroDivisionError\<close>; and
  every count \<open>rdr\<close> in \<open>rated_count\<close> is at least one, so \<open>process\<close> returns there too. The
  constructor of \<open>BestRankedReport\<close> itself fails on a rating that is no index of the
  six-element histogram; the statement is about every report it does construct.
\<close>

theorem no_zero_denominator:
  "(\<forall>k. k \<in> fst ` set (grouping_count (ReadVsUnreadReport_init truthy books attr isg iug)) \<longrightarrow>
        1 \<le> dd_lookup 0 (read_count (ReadVsUnreadReport_init truthy books attr isg iug)) k
             + dd_lookup 0 (unread_count (ReadVsUnreadReport_init truthy books attr isg iug)) k)
   \<and> (\<exists>r1. ReadVsUnreadReport_process (ReadVsUnreadReport_init truthy books attr isg iug) = Inr r1)
   \<and> (BestRankedReport_init truthy books attr isg iug = Inr b \<longrightarrow>
        (\<forall>it. it \<in> set (rated_count b) \<longrightarrow> 1 \<le> snd it)
        \<and> (\<exists>b1. BestRankedReport_process b = Inr b1))"
proof (intro conjI impI allI)
  let ?R = "ReadVsUnreadReport_init truthy books attr isg iug"
  have inv: "rvu_inv ?R" by (rule rvu_init_inv)
  show "1 \<le> dd_lookup 0 (read_count ?R) k + dd_lookup 0 (unread_count ?R) k"
    if "k \<in> fst ` set (grouping_count ?R)" for k
  proof -
    have "1 \<le> dd_lookup 0 (grouping_count ?R) k"
      using inv that unfolding rvu_inv_def by blast
    moreover have "dd_lookup 0 (grouping_count ?R) k
        = dd_lookup 0 (read_count ?R) k + dd_lookup 0 (unread_count ?R) k"
      using inv unfolding rvu_inv_def by blast
    ultimately show ?thesis by simp
  qed
  show "\<exists>r1. ReadVsUnreadReport_process ?R = Inr r1"
    unfolding rvu_process_eq [OF inv] by blast
next
  assume b: "BestRankedReport_init truthy books attr isg iug = Inr b"
  have inv: "br_inv b" using b by (rule br_init_inv)
  show "1 \<le> snd it" if "it \<in> set (rated_count b)" for it
    using inv that unfolding br_inv_def by blast
  show "\<exists>b1. BestRankedReport_process b = Inr b1"
    unfolding br_process_eq [OF inv] by blast
qed

theorem no_zero_denominator_witness:
  "BestRankedReport_init truthy_str example_books ''shelves'' False True
     = Inr \<lparr>ignore_single_book_groups_br = False,
          rated_count = [(''sf'', 2), (''classics'', 1)],
          cumulative_rating = [(''sf'', 9), (''classics'', 4)],
          rating_groupings =
            [(''sf'', [None, Some 0, Some 0, Some 0, Some 1, Some 1]),
             (''classics'', [None, Some 0, Some 0, Some 0, Some 1, Some 0])],
          stats_br = None\<rparr>
   \<and> (\<exists>b1. BestRankedReport_process
          \<lparr>ignore_single_book_groups_br = False,
          rated_count = [(''sf'', 2), (''classics'', 1)],
          cumulative_rating = [(''sf'', 9), (''classics'', 4)],
          rating_groupings =
            [(''sf'', [None, Some 0, Some 0, Some 0, Some 1, Some 1]),
             (''classics'', [None, Some 0, Some 0, Some 0, Some 1, Some 0])],
          stats_br = None\<rparr> = Inr b1)
   \<and> (\<exists>r1. ReadVsUnreadReport_process
          (ReadVsUnreadReport_init truthy_str example_books ''shelves'' False True) = Inr r1)"
  using no_zero_denominator [of truthy_str example_books "''shelves''" False True, OF]
    example_br_init
  by blast

text \<open>
  Claim C9. With the default \<open>ignore_single_book_groups=True\<close>, \<open>ReadVsUnreadReport.process\<close>
  returns with exactly the groups in \<open>stats\<close> whose read and unread counts do not add up to
  one: every group of total membership one is discarded. With its default
  \<open>ignore_single_book_groups=False\<close>, \<open>BestRankedReport.process\<close> returns with one stat for every
  item of \<open>rated_count\<close>, in order, with that key and that count: a group with a single rated
  book is kept. Both hold whatever \<open>ignore_undefined_book_groups\<close> is (its default is \<open>True\<close>).
\<close>

theorem default_single_book_groups:
  "(\<exists>r1 ss. ReadVsUnreadReport_process (ReadVsUnreadReport_init truthy books attr True iug) = Inr r1
        \<and> stats r1 = Some ss
        \<and> key ` set ss =
            {k \<in> fst ` set (grouping_count (ReadVsUnreadReport_init truthy books attr True iug)).
               dd_lookup 0 (read_count (ReadVsUnreadReport_init truthy books attr True iug)) k
               + dd_lookup 0 (unread_count (ReadVsUnreadReport_init truthy books attr True iug)) k
               \<noteq> 1})
   \<and> (BestRankedReport_init truthy books attr False iug = Inr b \<longrightarrow>
        (\<exists>b1 ss. BestRankedReport_process b = Inr b1 \<and> stats_br b1 = Some ss
           \<and> map (\<lambda>s. (key_br s, number_of_books_rated s)) ss = rated_count b))"
proof (intro conjI impI)
  let ?R = "ReadVsUnreadReport_init truthy books attr True iug"
  let ?ks = "map fst (grouping_count ?R)"
  have inv: "rvu_inv ?R" by (rule rvu_init_inv)
  have isg: "ignore_single_book_groups ?R" by (simp add: rvu_init_flags)
  have pre: "\<forall>k \<in> set ?ks. dd_lookup 0 (read_count ?R) k + dd_lookup 0 (unread_count ?R) k \<noteq> 0"
    using rvu_inv_denominator [OF inv] by simp
  have "key ` set (concat (map (rvu_new_stats ?R) ?ks))
      = {k \<in> fst ` set (grouping_count ?R).
           dd_lookup 0 (read_count ?R) k + dd_lookup 0 (unread_count ?R) k \<noteq> 1}"
    unfolding rvu_new_stats_keys [OF pre] using isg by simp
  then show "\<exists>r1 ss. ReadVsUnreadReport_process ?R = Inr r1 \<and> stats r1 = Some ss
        \<and> key ` set ss = {k \<in> fst ` set (grouping_count ?R).
               dd_lookup 0 (read_count ?R) k + dd_lookup 0 (unread_count ?R) k \<noteq> 1}"
    unfolding rvu_process_eq [OF inv] by simp
next
  assume b: "BestRankedReport_init truthy books attr False iug = Inr b"
  have inv: "br_inv b" using b by (rule br_init_inv)
  have isg: "\<not> ignore_single_book_groups_br b" using br_init_flags [OF b] by simp
  have pre: "\<forall>it \<in> set (rated_count b). snd it \<noteq> 0"
    using inv by (fastforce simp: br_inv_def)
  show "\<exists>b1 ss. BestRankedReport_process b = Inr b1 \<and> stats_br b1 = Some ss
           \<and> map (\<lambda>s. (key_br s, number_of_books_rated s)) ss = rated_count b"
    unfolding br_process_eq [OF inv] using br_new_stats_all [OF isg pre] by simp
qed

theorem default_single_book_groups_witness:
  "BestRankedReport_init truthy_str example_books ''shelves'' False True
     = Inr \<lparr>ignore_single_book_groups_br = False,
          rated_count = [(''sf'', 2), (''classics'', 1)],
          cumulative_rating = [(''sf'', 9), (''classics'', 4)],
          rating_groupings =
            [(''sf'', [None, Some 0, Some 0, Some 0, Some 1, Some 1]),
             (''classics'', [None, Some 0, Some 0, Some 0, Some 1, Some 0])],
          stats_br = None\<rparr>
   \<and> (\<exists>b1 ss. BestRankedReport_process
          \<lparr>ignore_single_book_groups_br = False,
          rated_count = [(''sf'', 2), (''classics'', 1)],
          cumulative_rating = [(''sf'', 9), (''classics'', 4)],
          rating_groupings =
            [(''sf'', [None, Some 0, Some 0, Some 0, Some 1, Some 1]),
             (''classics'', [None, Some 0, Some 0, Some 0, Some 1, Some 0])],
          stats_br = None\<rparr> = Inr b1
        \<and> stats_br b1 = Some ss
        \<and> map (\<lambda>s. (key_br s, number_of_books_rated s)) ss = [(''sf'', 2), (''classics'', 1)])
   \<and> (\<exists>r1 ss. ReadVsUnreadReport_process
          (ReadVsUnreadReport_init truthy_str example_books ''shelves'' True True) = Inr r1
        \<and> stats r1 = Some ss \<and> key ` set ss = {''sf''})"
proof (intro conjI)
  let ?R = "ReadVsUnreadReport_init truthy_str example_books ''shelves'' True True"
  have sf: "{k \<in> fst ` set (grouping_count ?R).
           dd_lookup 0 (read_count ?R) k + dd_lookup 0 (unread_count ?R) k \<noteq> 1} = {''sf''}"
    unfolding example_rvu_init by (auto simp: dd_lookup_def)
  show "\<exists>r1 ss. ReadVsUnreadReport_process ?R = Inr r1
        \<and> stats r1 = Some ss \<and> key ` set ss = {''sf''}"
    using default_single_book_groups [of truthy_str example_books "''shelves''" True,
        THEN conjunct1]
    unfolding sf .
  show "BestRankedReport_init truthy_str example_books ''shelves'' False True
     = Inr \<lparr>ignore_single_book_groups_br = False,
          rated_count = [(''sf'', 2), (''classics'', 1)],
          cumulative_rating = [(''sf'', 9), (''classics'', 4)],
          rating_groupings =
            [(''sf'', [None, Some 0, Some 0, Some 0, Some 1, Some 1]),
             (''classics'', [None, Some 0, Some 0, Some 0, Some 1, Some 0])],
          stats_br = None\<rparr>"
    by (rule example_br_init)
  show "\<exists>b1 ss. BestRankedReport_process
          \<lparr>ignore_single_book_groups_br = False,
          rated_count = [(''sf'', 2), (''classics'', 1)],
          cumulative_rating = [(''sf'', 9), (''classics'', 4)],
          rating_groupings =
            [(''sf'', [None, Some 0, Some 0, Some 0, Some 1, Some 1]),
             (''classics'', [None, Some 0, Some 0, Some 0, Some 1, Some 0])],
          stats_br = None\<rparr> = Inr b1
        \<and> stats_br b1 = Some ss
        \<and> map (\<lambda>s. (key_br s, number_of_books_rated s)) ss = [(''sf'', 2), (''classics'', 1)]"
    using default_single_book_groups [of truthy_str example_books "''shelves''" True,
        THEN conjunct2, rule_format, OF example_br_init]
    by simp
qed

text \<open>
  Claim C10 as it was stated says that \<open>process\<close> does not modify the count tables. On the
  three example books, with the default arguments, the shelf \<open>classics\<close> has one read book and
  no unread one: \<open>unread_count\<close> has no entry for it after the constructor and has the entry
  \<open>(classics, 0)\<close> after \<open>process\<close>.
\<close>

theorem process_modifies_unread_count:
  "unread_count (ReadVsUnreadReport_init truthy_str example_books ''shelves'' True True)
     = [(''sf'', 1)]
   \<and> map_sum id unread_count
        (ReadVsUnreadReport_process
           (ReadVsUnreadReport_init truthy_str example_books ''shelves'' True True))
     = Inr [(''sf'', 1), (''classics'', 0)]"
  by (simp add: example_rvu_init example_rvu_process)

text \<open>
  Claim C10, as amended. For every constructed report, \<open>process\<close> returns the report, and
  calling it again on the report it returned changes nothing at all: the same \<open>stats\<close> are
  rebuilt. \<open>ReadVsUnreadReport.process\<close> leaves \<open>grouping_count\<close> as it is and leaves every
  count that \<open>read_count\<close> and \<open>unread_count\<close> give for a key as it is; what it does change is
  that reading a key that is missing from one of these two \<open>defaultdict\<close>s stores a zero entry
  there. \<open>BestRankedReport.process\<close> leaves all three of its tables as they are.
\<close>

theorem process_idempotent:
  "(\<exists>r1. ReadVsUnreadReport_process (ReadVsUnreadReport_init truthy books attr isg iug) = Inr r1
        \<and> ReadVsUnreadReport_process r1 = Inr r1
        \<and> grouping_count r1 = grouping_count (ReadVsUnreadReport_init truthy books attr isg iug)
        \<and> (\<forall>k. dd_lookup 0 (read_count r1) k
                  = dd_lookup 0 (read_count (ReadVsUnreadReport_init truthy books attr isg iug)) k
              \<and> dd_lookup 0 (unread_count r1) k
                  = dd_lookup 0 (unread_count (ReadVsUnreadReport_init truthy books attr isg iug)) k)
        \<and> (\<forall>it. it \<in> set (read_count r1) \<longrightarrow>
              it \<in> set (read_count (ReadVsUnreadReport_init truthy books attr isg iug)) \<or> snd it = 0)
        \<and> (\<forall>it. it \<in> set (unread_count r1) \<longrightarrow>
              it \<in> set (unread_count (ReadVsUnreadReport_init truthy books attr isg iug)) \<or> snd it = 0))
   \<and> (BestRankedReport_init truthy books attr isg iug = Inr b \<longrightarrow>
        (\<exists>b1. BestRankedReport_process b = Inr b1 \<and> BestRankedReport_process b1 = Inr b1
           \<and> rated_count b1 = rated_count b \<and> cumulative_rating b1 = cumulative_rating b
           \<and> rating_groupings b1 = rating_groupings b))"
proof (intro conjI impI)
  let ?R = "ReadVsUnreadReport_init truthy books attr isg iug"
  let ?ks = "map fst (grouping_count ?R)"
  let ?r1 = "?R\<lparr>read_count := fold (\<lambda>k t. dd_touch 0 t k) ?ks (read_count ?R),
            unread_count := fold (\<lambda>k t. dd_touch 0 t k) ?ks (unread_count ?R),
            stats := Some (concat (map (rvu_new_stats ?R) ?ks))\<rparr>"
  have inv: "rvu_inv ?R" by (rule rvu_init_inv)
  have p: "ReadVsUnreadReport_process ?R = Inr ?r1" by (rule rvu_process_eq [OF inv])
  have "ReadVsUnreadReport_process ?r1 = Inr ?r1" using inv p by (rule rvu_process_idem)
  moreover have "grouping_count ?r1 = grouping_count ?R" by simp
  moreover have "\<forall>k. dd_lookup 0 (read_count ?r1) k = dd_lookup 0 (read_count ?R) k
      \<and> dd_lookup 0 (unread_count ?r1) k = dd_lookup 0 (unread_count ?R) k"
    by (simp add: dd_lookup_fold_touch)
  moreover have "\<forall>it. it \<in> set (read_count ?r1) \<longrightarrow> it \<in> set (read_count ?R) \<or> snd it = 0"
    using set_fold_touch [of _ 0 ?ks "read_count ?R"] by simp
  moreover have "\<forall>it. it \<in> set (unread_count ?r1) \<longrightarrow> it \<in> set (unread_count ?R) \<or> snd it = 0"
    using set_fold_touch [of _ 0 ?ks "unread_count ?R"] by simp
  ultimately show "\<exists>r1. ReadVsUnreadReport_process ?R = Inr r1
        \<and> ReadVsUnreadReport_process r1 = Inr r1
        \<and> grouping_count r1 = grouping_count ?R
        \<and> (\<forall>k. dd_lookup 0 (read_count r1) k = dd_lookup 0 (read_count ?R) k
              \<and> dd_lookup 0 (unread_count r1) k = dd_lookup 0 (unread_count ?R) k)
        \<and> (\<forall>it. it \<in> set (read_count r1) \<longrightarrow> it \<in> set (read_count ?R) \<or> snd it = 0)
        \<and> (\<forall>it. it \<in> set (unread_count r1) \<longrightarrow> it \<in> set (unread_count ?R) \<or> snd it = 0)"
    using p by blast
next
  assume b: "BestRankedReport_init truthy books attr isg iug = Inr b"
  let ?b1 = "b\<lparr>stats_br := Some (concat (map (br_new_stats b) (rated_count b)))\<rparr>"
  have inv: "br_inv b" using b by (rule br_init_inv)
  have p: "BestRankedReport_process b = Inr ?b1" by (rule br_process_eq [OF inv])
  have "BestRankedReport_process ?b1 = Inr ?b1" using inv p by (rule br_process_idem)
  then show "\<exists>b1. BestRankedReport_process b = Inr b1 \<and> BestRankedReport_process b1 = Inr b1
           \<and> rated_count b1 = rated_count b \<and> cumulative_rating b1 = cumulative_rating b
           \<and> rating_groupings b1 = rating_groupings b"
    using p by simp
qed

theorem process_idempotent_witness:
  "BestRankedReport_init truthy_str example_books ''shelves'' False True
     = Inr \<lparr>ignore_single_book_groups_br = False,
          rated_count = [(''sf'', 2), (''classics'', 1)],
          cumulative_rating = [(''sf'', 9), (''classics'', 4)],
          rating_groupings =
            [(''sf'', [None, Some 0, Some 0, Some 0, Some 1, Some 1]),
             (''classics'', [None, Some 0, Some 0, Some 0, Some 1, Some 0])],
          stats_br = None\<rparr>
   \<and> (\<exists>b1. BestRankedReport_process
          \<lparr>ignore_single_book_groups_br = False,
          rated_count = [(''sf'', 2), (''classics'', 1)],
          cumulative_rating = [(''sf'', 9), (''classics'', 4)],
          rating_groupings =
            [(''sf'', [None, Some 0, Some 0, Some 0, Some 1, Some 1]),
             (''classics'', [None, Some 0, Some 0, Some 0, Some 1, Some 0])],
          stats_br = None\<rparr> = Inr b1
        \<and> BestRankedReport_process b1 = Inr b1
        \<and> rated_count b1 = [(''sf'', 2), (''classics'', 1)]
        \<and> cumulative_rating b1 = [(''sf'', 9), (''classics'', 4)])
   \<and> (\<exists>r1. ReadVsUnreadReport_process
          (ReadVsUnreadReport_init truthy_str example_books ''shelves'' True True) = Inr r1
        \<and> ReadVsUnreadReport_process r1 = Inr r1)"
proof (intro conjI)
  show "BestRankedReport_init truthy_str example_books ''shelves'' False True
     = Inr \<lparr>ignore_single_book_groups_br = False,
          rated_count = [(''sf'', 2), (''classics'', 1)],
          cumulative_rating = [(''sf'', 9), (''classics'', 4)],
          rating_groupings =
            [(''sf'', [None, Some 0, Some 0, Some 0, Some 1, Some 1]),
             (''classics'', [None, Some 0, Some 0, Some 0, Some 1, Some 0])],
          stats_br = None\<rparr>"
    by (rule example_br_init)
  show "\<exists>b1. BestRankedReport_process
          \<lparr>ignore_single_book_groups_br = False,
          rated_count = [(''sf'', 2), (''classics'', 1)],
          cumulative_rating = [(''sf'', 9), (''classics'', 4)],
          rating_groupings =
            [(''sf'', [None, Some 0, Some 0, Some 0, Some 1, Some 1]),
             (''classics'', [None, Some 0, Some 0, Some 0, Some 1, Some 0])],
          stats_br = None\<rparr> = Inr b1
        \<and> BestRankedReport_process b1 = Inr b1
        \<and> rated_count b1 = [(''sf'', 2), (''classics'', 1)]
        \<and> cumulative_rating b1 = [(''sf'', 9), (''classics'', 4)]"
    using process_idempotent [of truthy_str example_books "''shelves''" False True,
        THEN conjunct2, rule_format, OF example_br_init]
    by auto
  show "\<exists>r1. ReadVsUnreadReport_process
          (ReadVsUnreadReport_init truthy_str example_books ''shelves'' True True) = Inr r1
        \<and> ReadVsUnreadReport_process r1 = Inr r1"
    using process_idempotent [of truthy_str example_books "''shelves''" True True,
        THEN conjunct1]
    by blast
qed

section \<open>The order of rendering\<close>

lemma compare_rvustat_lt:
  "key a \<noteq> key b \<Longrightarrow> compare_rvustat a b < 0 \<longleftrightarrow> rvu_before a b"
  by (auto simp: compare_rvustat_def rvu_before_def)

lemma rvu_before_total: "key a \<noteq> key b \<Longrightarrow> \<not> rvu_before a b \<Longrightarrow> rvu_before b a"
  by (auto simp: rvu_before_def)

lemma rvu_before_trans: "rvu_before a b \<Longrightarrow> rvu_before b c \<Longrightarrow> rvu_before a c"
  by (auto simp: rvu_before_def)

lemma set_insort_lt: "set (insort_lt lt x ys) = insert x (set ys)"
  by (induction ys) auto

lemma mset_insort_lt: "mset (insort_lt lt x ys) = add_mset x (mset ys)"
  by (induction ys) auto

lemma sorted_insort_rvu:
  assumes "sorted_wrt rvu_before ys" and "\<forall>y \<in> set ys. key y \<noteq> key x"
  shows "sorted_wrt rvu_before (insort_lt (\<lambda>a b. compare_rvustat a b < 0) x ys)"
  using assms
proof (induction ys)
  case Nil
  show ?case by simp
next
  case (Cons y ys)
  have ne: "key x \<noteq> key y" using Cons.prems(2) by auto
  show ?case
  proof (cases "rvu_before x y")
    case True
    then have "\<forall>z \<in> set ys. rvu_before x z"
      using Cons.prems(1) by (auto intro: rvu_before_trans)
    then show ?thesis
      using True Cons.prems(1) ne by (simp add: compare_rvustat_lt)
  next
    case False
    then have "rvu_before y x" using ne by (intro rvu_before_total) auto
    then show ?thesis
      using False Cons ne by (auto simp: compare_rvustat_lt set_insort_lt)
  qed
qed

lemma sorted_py_loop:
  assumes "sorted_wrt rvu_before acc" and "distinct (map key (acc @ xs))"
  shows "sorted_wrt rvu_before
           (foldl (\<lambda>acc x. insort_lt (\<lambda>a b. compare_rvustat a b < 0) x acc) acc xs)
       \<and> mset (foldl (\<lambda>acc x. insort_lt (\<lambda>a b. compare_rvustat a b < 0) x acc) acc xs)
           = mset acc + mset xs"
  using assms
proof (induction xs arbitrary: acc)
  case Nil
  then show ?case by simp
next
  case (Cons x xs)
  let ?acc = "insort_lt (\<lambda>a b. compare_rvustat a b < 0) x acc"
  have "key y \<noteq> key x" if "y \<in> set acc" for y
  proof -
    have "key y \<in> key ` set acc" using that by simp
    moreover have "key x \<notin> key ` set acc" using Cons.prems(2) by simp
    ultimately show ?thesis by metis
  qed
  then have s: "sorted_wrt rvu_before ?acc"
    using Cons.prems(1) by (intro sorted_insort_rvu) auto
  have d: "distinct (map key (?acc @ xs))"
  proof -
    have "mset (map key (?acc @ xs)) = mset (map key (acc @ x # xs))"
      by (simp add: mset_insort_lt)
    then show ?thesis using Cons.prems(2) by (metis mset_eq_imp_distinct_iff)
  qed
  show ?case using Cons.IH [OF s d] by (simp add: mset_insort_lt)
qed

lemma sorted_py_rvu:
  assumes "distinct (map key xs)"
  shows "sorted_wrt rvu_before (sorted_py compare_rvustat xs)"
    and "mset (sorted_py compare_rvustat xs) = mset xs"
  using sorted_py_loop [of "[]" xs] assms by (simp_all add: sorted_py_def)

lemma rvu_new_stats_key: "s \<in> set (rvu_new_stats r k) \<Longrightarrow> key s = k"
  by (auto simp: rvu_new_stats_def split: if_splits sum.splits)

lemma rvu_new_stats_short: "length (rvu_new_stats r k) \<le> 1"
  by (auto simp: rvu_new_stats_def split: sum.splits)

lemma distinct_new_stats:
  "distinct ks \<Longrightarrow> distinct (map key (concat (map (rvu_new_stats r) ks)))"
proof (induction ks)
  case Nil
  show ?case by simp
next
  case (Cons k ks)
  have one: "distinct (map key (rvu_new_stats r k))"
    using rvu_new_stats_short [of r k] by (cases "rvu_new_stats r k") auto
  have "a \<noteq> b" if "a \<in> key ` set (rvu_new_stats r k)"
    and "b \<in> key ` set (concat (map (rvu_new_stats r) ks))" for a b
  proof -
    have "a = k" using that(1) rvu_new_stats_key by fastforce
    moreover have "b \<in> set ks" using that(2) rvu_new_stats_key by fastforce
    ultimately show ?thesis using Cons.prems by auto
  qed
  then have "key ` set (rvu_new_stats r k) \<inter> key ` set (concat (map (rvu_new_stats r) ks)) = {}"
    by blast
  then show ?case using Cons one by simp
qed

lemma rvu_render_loop_lines:
  "fst (rvu_render_loop str_of ss r)
   = map (\<lambda>s. rvu_line str_of s (dd_lookup 0 (grouping_count r) (key s))) ss"
proof (induction ss arbitrary: r)
  case Nil
  show ?case by simp
next
  case (Cons s ss)
  show ?case
    using Cons.IH [of "r\<lparr>grouping_count := dd_touch 0 (grouping_count r) (key s)\<rparr>"]
    by (simp add: split_beta dd_lookup_touch)
qed

lemma rvu_render_loop_state:
  "key ` set ss \<subseteq> fst ` set (grouping_count r) \<Longrightarrow> snd (rvu_render_loop str_of ss r) = r"
proof (induction ss arbitrary: r)
  case Nil
  show ?case by simp
next
  case (Cons s ss)
  then have "dd_touch 0 (grouping_count r) (key s) = grouping_count r"
    by (intro dd_touch_present) auto
  then show ?case using Cons by (simp add: split_beta)
qed

lemma truediv_1_3: "truediv 1 3 = Inr (6004799503160661, - 54)"
  by code_simp

lemma truediv_2_6: "truediv 2 6 = Inr (6004799503160661, - 54)"
  by code_simp

lemma truediv_1_2: "truediv 1 2 = Inr (4503599627370496, - 53)"
  by code_simp

lemma float_mul_100_third:
  "float_mul (7036874417766400, - 46) (6004799503160661, - 54) = (4691249611844266, - 47)"
  by code_simp

lemma float_mul_100_half:
  "float_mul (7036874417766400, - 46) (4503599627370496, - 53) = (7036874417766400, - 47)"
  by code_simp

lemma int_of_float_33: "int_of_float (4691249611844266, - 47) = 33"
  by code_simp

lemma int_of_float_50: "int_of_float (7036874417766400, - 47) = 50"
  by code_simp

lemma percentage_1_2: "percentage 1 2 = Inr 33"
  by (simp add: percentage_def truediv_1_3 float_of_int_100 float_mul_100_third int_of_float_33)

lemma percentage_2_4: "percentage 2 4 = Inr 33"
  by (simp add: percentage_def truediv_2_6 float_of_int_100 float_mul_100_third int_of_float_33)

lemma percentage_1_1: "percentage 1 1 = Inr 50"
  by (simp add: percentage_def truediv_1_2 float_of_int_100 float_mul_100_half int_of_float_50)

lemma tie_init:
  "ReadVsUnreadReport_init truthy_str tie_books ''shelves'' True True
   = \<lparr>unread_count = [(''b'', 1), (''a'', 1), (''c'', 2), (''d'', 4)],
      read_count = [(''b'', 1), (''a'', 1), (''c'', 1), (''d'', 2)],
      grouping_count = [(''b'', 2), (''a'', 2), (''c'', 3), (''d'', 6)],
      ignore_single_book_groups = True, stats = None\<rparr>"
  by (simp add: ReadVsUnreadReport_init_def rvu_count_def shelf_book_def truthy_str_def
      tie_books_def dd_add_def dd_lookup_def dd_touch_def)

lemma tie_process:
  "ReadVsUnreadReport_process
     \<lparr>unread_count = [(''b'', 1), (''a'', 1), (''c'', 2), (''d'', 4)],
      read_count = [(''b'', 1), (''a'', 1), (''c'', 1), (''d'', 2)],
      grouping_count = [(''b'', 2), (''a'', 2), (''c'', 3), (''d'', 6)],
      ignore_single_book_groups = True, stats = None\<rparr>
   = Inr \<lparr>unread_count = [(''b'', 1), (''a'', 1), (''c'', 2), (''d'', 4)],
      read_count = [(''b'', 1), (''a'', 1), (''c'', 1), (''d'', 2)],
      grouping_count = [(''b'', 2), (''a'', 2), (''c'', 3), (''d'', 6)],
      ignore_single_book_groups = True,
      stats = Some [\<lparr>key = ''b'', percentage_read = 50, difference = 0\<rparr>,
                    \<lparr>key = ''a'', percentage_read = 50, difference = 0\<rparr>,
                    \<lparr>key = ''c'', percentage_read = 33, difference = - 1\<rparr>,
                    \<lparr>key = ''d'', percentage_read = 33, difference = - 2\<rparr>]\<rparr>"
  by (simp add: ReadVsUnreadReport_process_def rvu_process_key_def rvu_stat_def
      dd_lookup_def dd_touch_def percentage_1_1 percentage_1_2 percentage_2_4)

lemma tie_sorted:
  "sorted_py compare_rvustat
     [\<lparr>key = ''b'', percentage_read = 50, difference = 0\<rparr>,
      \<lparr>key = ''a'', percentage_read = 50, difference = 0\<rparr>,
      \<lparr>key = ''c'', percentage_read = 33, difference = - 1\<rparr>,
      \<lparr>key = ''d'', percentage_read = 33, difference = - 2\<rparr>]
   = [\<lparr>key = ''d'', percentage_read = 33, difference = - 2\<rparr>,
      \<lparr>key = ''c'', percentage_read = 33, difference = - 1\<rparr>,
      \<lparr>key = ''a'', percentage_read = 50, difference = 0\<rparr>,
      \<lparr>key = ''b'', percentage_read = 50, difference = 0\<rparr>]"
  by (simp add: sorted_py_def compare_rvustat_def)

text \<open>
  Claim C6. After \<open>process\<close> on a constructed report, \<open>render\<close> hands one line per stat to
  \<open>output_function\<close>, and the stats behind the lines are the stats of the report in the order
  \<open>rvu_before\<close>: percentage read ascending; among equal percentages the larger absolute
  difference first; among stats equal on both, the key ascending. The keys of one report are
  of one type and ordered by it (\<open>'k\<close> is any linear order).
\<close>

theorem render_sorted:
  "\<exists>r1 ss. ReadVsUnreadReport_process (ReadVsUnreadReport_init truthy books attr isg iug) = Inr r1
      \<and> stats r1 = Some ss
      \<and> ReadVsUnreadReport_render str_of r1
          = Inr (map (\<lambda>s. rvu_line str_of s (dd_lookup 0 (grouping_count r1) (key s)))
                   (sorted_py compare_rvustat ss), r1)
      \<and> mset (sorted_py compare_rvustat ss) = mset ss
      \<and> sorted_wrt rvu_before (sorted_py compare_rvustat ss)"
proof -
  let ?R = "ReadVsUnreadReport_init truthy books attr isg iug"
  let ?ks = "map fst (grouping_count ?R)"
  let ?ss = "concat (map (rvu_new_stats ?R) ?ks)"
  let ?r1 = "?R\<lparr>read_count := fold (\<lambda>k t. dd_touch 0 t k) ?ks (read_count ?R),
            unread_count := fold (\<lambda>k t. dd_touch 0 t k) ?ks (unread_count ?R),
            stats := Some ?ss\<rparr>"
  let ?sorted = "sorted_py compare_rvustat ?ss"
  have inv: "rvu_inv ?R" by (rule rvu_init_inv)
  have p: "ReadVsUnreadReport_process ?R = Inr ?r1" by (rule rvu_process_eq [OF inv])
  have "distinct ?ks" using inv by (simp add: rvu_inv_def)
  then have d: "distinct (map key ?ss)" by (rule distinct_new_stats)
  have m: "mset ?sorted = mset ?ss" and s: "sorted_wrt rvu_before ?sorted"
    using sorted_py_rvu [OF d] by simp_all
  have "set ?sorted = set ?ss" using m by (rule mset_eq_setD)
  moreover have "key ` set ?ss \<subseteq> set ?ks" using rvu_new_stats_key by fastforce
  ultimately have sub: "key ` set ?sorted \<subseteq> fst ` set (grouping_count ?r1)" by simp
  have "rvu_render_loop str_of ?sorted ?r1
      = (map (\<lambda>s. rvu_line str_of s (dd_lookup 0 (grouping_count ?r1) (key s))) ?sorted, ?r1)"
    by (simp only: prod_eq_iff fst_conv snd_conv rvu_render_loop_lines
        rvu_render_loop_state [OF sub, of str_of] simp_thms)
  then have r: "ReadVsUnreadReport_render str_of ?r1
      = Inr (map (\<lambda>s. rvu_line str_of s (dd_lookup 0 (grouping_count ?r1) (key s))) ?sorted, ?r1)"
    by (simp add: ReadVsUnreadReport_render_def)
  have st: "stats ?r1 = Some ?ss" by simp
  show ?thesis
    by (rule exI [of _ ?r1], rule exI [of _ ?ss], intro conjI) (fact p st r m s)+
qed

lemma line_d:
  "rvu_line (\<lambda>s. s) \<lparr>key = ''d'', percentage_read = 33, difference = - 2\<rparr> 6
   = ''d                              :    33%  -2   6''"
  by code_simp

lemma line_c:
  "rvu_line (\<lambda>s. s) \<lparr>key = ''c'', percentage_read = 33, difference = - 1\<rparr> 3
   = ''c                              :    33%  -1   3''"
  by code_simp

lemma line_a:
  "rvu_line (\<lambda>s. s) \<lparr>key = ''a'', percentage_read = 50, difference = 0\<rparr> 2
   = ''a                              :    50%  +0   2''"
  by code_simp

lemma line_b:
  "rvu_line (\<lambda>s. s) \<lparr>key = ''b'', percentage_read = 50, difference = 0\<rparr> 2
   = ''b                              :    50%  +0   2''"
  by code_simp

theorem render_sorted_witness:
  "\<exists>r1. ReadVsUnreadReport_process
           (ReadVsUnreadReport_init truthy_str tie_books ''shelves'' True True) = Inr r1
      \<and> ReadVsUnreadReport_render (\<lambda>s. s) r1
          = Inr ([''d                              :    33%  -2   6'',
             ''c                              :    33%  -1   3'',
             ''a                              :    50%  +0   2'',
             ''b                              :    50%  +0   2''], r1)"
proof -
  obtain r1 ss where
    p: "ReadVsUnreadReport_process
          (ReadVsUnreadReport_init truthy_str tie_books ''shelves'' True True) = Inr r1"
    and st: "stats r1 = Some ss"
    and r: "ReadVsUnreadReport_render (\<lambda>s. s) r1
          = Inr (map (\<lambda>s. rvu_line (\<lambda>s. s) s (dd_lookup 0 (grouping_count r1) (key s)))
                   (sorted_py compare_rvustat ss), r1)"
    using render_sorted [of truthy_str tie_books "''shelves''" True True "\<lambda>s. s"] by blast
  have r1: "r1 = \<lparr>unread_count = [(''b'', 1), (''a'', 1), (''c'', 2), (''d'', 4)],
      read_count = [(''b'', 1), (''a'', 1), (''c'', 1), (''d'', 2)],
      grouping_count = [(''b'', 2), (''a'', 2), (''c'', 3), (''d'', 6)],
      ignore_single_book_groups = True,
      stats = Some [\<lparr>key = ''b'', percentage_read = 50, difference = 0\<rparr>,
                    \<lparr>key = ''a'', percentage_read = 50, difference = 0\<rparr>,
                    \<lparr>key = ''c'', percentage_read = 33, difference = - 1\<rparr>,
                    \<lparr>key = ''d'', percentage_read = 33, difference = - 2\<rparr>]\<rparr>"
    using p unfolding tie_init tie_process by simp
  have ss: "ss = [\<lparr>key = ''b'', percentage_read = 50, difference = 0\<rparr>,
                    \<lparr>key = ''a'', percentage_read = 50, difference = 0\<rparr>,
                    \<lparr>key = ''c'', percentage_read = 33, difference = - 1\<rparr>,
                    \<lparr>key = ''d'', percentage_read = 33, difference = - 2\<rparr>]"
    using st unfolding r1 by simp
  have g: "grouping_count r1 = [(''b'', 2), (''a'', 2), (''c'', 3), (''d'', 6)]"
    unfolding r1 by simp
  have "map (\<lambda>s. rvu_line (\<lambda>s. s) s (dd_lookup 0 (grouping_count r1) (key s)))
          (sorted_py compare_rvustat ss)
      = [''d                              :    33%  -2   6'',
             ''c                              :    33%  -1   3'',
             ''a                              :    50%  +0   2'',
             ''b                              :    50%  +0   2'']"
    unfolding ss tie_sorted g by (simp add: dd_lookup_def line_d line_c line_a line_b)
  then show ?thesis using p r by simp
qed

section \<open>The percentage of a large group\<close>

lemma dict_set_twice: "dict_set k v' (dict_set k v t) = dict_set k v' t"
  by (induction t) auto

lemma dd_add_add: "dd_add (dd_add t k a) k b = dd_add t k (a + b)"
proof (cases "k \<in> fst ` set t")
  case True
  then have "k \<in> fst ` set (dict_set k (dd_lookup 0 t k + a) t)"
    using keys_dict_set [of k "dd_lookup 0 t k + a" t] by (metis list.set_map)
  then show ?thesis
    using True by (simp add: dd_add_present dd_lookup_dict_set dict_set_twice add.assoc)
next
  case False
  then have "dd_add t k a = t @ [(k, a)]" by (rule dd_add_absent)
  moreover have "k \<in> fst ` set (t @ [(k, a)])" by simp
  moreover have "dd_lookup 0 (t @ [(k, a)]) k = a"
  proof -
    have "map_of t k = None" using False by (simp add: map_of_eq_None_iff)
    then show ?thesis by (simp add: dd_lookup_def map_add_def)
  qed
  ultimately show ?thesis
    using False by (simp add: dd_add_present dict_set_append_new dd_add_absent)
qed

lemma rvu_count_read_many:
  assumes "property_as_sequence bk attr = [k]" and "truthy k \<or> \<not> iug" and "\<not> is_unread bk"
  shows "fold (\<lambda>bk. fold (rvu_count truthy iug bk) (property_as_sequence bk attr))
           (replicate (Suc n) bk) r
       = r\<lparr>grouping_count := dd_add (grouping_count r) k (1 + int n),
            read_count := dd_add (read_count r) k (1 + int n)\<rparr>"
proof (induction n arbitrary: r)
  case 0
  show ?case using assms by (simp add: rvu_count_def)
next
  case (Suc n)
  have "fold (\<lambda>bk. fold (rvu_count truthy iug bk) (property_as_sequence bk attr))
           (replicate (Suc (Suc n)) bk) r
      = fold (\<lambda>bk. fold (rvu_count truthy iug bk) (property_as_sequence bk attr))
           (replicate (Suc n) bk) (rvu_count truthy iug bk k r)"
    using assms(1) by simp
  also have "\<dots> = r\<lparr>grouping_count := dd_add (grouping_count r) k (1 + (1 + int n)),
            read_count := dd_add (read_count r) k (1 + (1 + int n))\<rparr>"
    unfolding Suc.IH using assms(2,3) by (simp add: rvu_count_def dd_add_add)
  finally show ?case by simp
qed

lemma rvu_count_unread_many:
  assumes "property_as_sequence bk attr = [k]" and "truthy k \<or> \<not> iug" and "is_unread bk"
  shows "fold (\<lambda>bk. fold (rvu_count truthy iug bk) (property_as_sequence bk attr))
           (replicate (Suc n) bk) r
       = r\<lparr>grouping_count := dd_add (grouping_count r) k (1 + int n),
            unread_count := dd_add (unread_count r) k (1 + int n)\<rparr>"
proof (induction n arbitrary: r)
  case 0
  show ?case using assms by (simp add: rvu_count_def)
next
  case (Suc n)
  have "fold (\<lambda>bk. fold (rvu_count truthy iug bk) (property_as_sequence bk attr))
           (replicate (Suc (Suc n)) bk) r
      = fold (\<lambda>bk. fold (rvu_count truthy iug bk) (property_as_sequence bk attr))
           (replicate (Suc n) bk) (rvu_count truthy iug bk k r)"
    using assms(1) by simp
  also have "\<dots> = r\<lparr>grouping_count := dd_add (grouping_count r) k (1 + (1 + int n)),
            unread_count := dd_add (unread_count r) k (1 + (1 + int n))\<rparr>"
    unfolding Suc.IH using assms(2,3) by (simp add: rvu_count_def dd_add_add)
  finally show ?case by simp
qed

lemma fifty_init:
  "ReadVsUnreadReport_init truthy_str fifty_books ''shelves'' True True
   = \<lparr>unread_count = [(''sf'', 21)], read_count = [(''sf'', 29)],
      grouping_count = [(''sf'', 50)],
      ignore_single_book_groups = True, stats = None\<rparr>"
proof -
  have n29: "replicate 29 (shelf_book [''sf''] False None)
      = replicate (Suc 28) (shelf_book [''sf''] False None)" by simp
  have n21: "replicate 21 (shelf_book [''sf''] True None)
      = replicate (Suc 20) (shelf_book [''sf''] True None)" by simp
  have rd: "property_as_sequence (shelf_book [''sf''] False None) ''shelves'' = [''sf'']"
    "truthy_str ''sf'' \<or> \<not> True" "\<not> is_unread (shelf_book [''sf''] False None)"
    by (simp_all add: shelf_book_def truthy_str_def)
  have ur: "property_as_sequence (shelf_book [''sf''] True None) ''shelves'' = [''sf'']"
    "truthy_str ''sf'' \<or> \<not> True" "is_unread (shelf_book [''sf''] True None)"
    by (simp_all add: shelf_book_def truthy_str_def)
  show ?thesis
    unfolding ReadVsUnreadReport_init_def fifty_books_def fold_append comp_def n29 n21
      rvu_count_read_many [where truthy = truthy_str and iug = True, OF rd]
      rvu_count_unread_many [where truthy = truthy_str and iug = True, OF ur]
    by (simp add: dd_add_def dd_lookup_def dd_touch_def)
qed

lemma fifty_process:
  "ReadVsUnreadReport_process
     \<lparr>unread_count = [(''sf'', 21)], read_count = [(''sf'', 29)],
      grouping_count = [(''sf'', 50)],
      ignore_single_book_groups = True, stats = None\<rparr>
   = Inr \<lparr>unread_count = [(''sf'', 21)], read_count = [(''sf'', 29)],
      grouping_count = [(''sf'', 50)],
      ignore_single_book_groups = True,
      stats = Some [\<lparr>key = ''sf'', percentage_read = 57, difference = 8\<rparr>]\<rparr>"
  by (simp add: ReadVsUnreadReport_process_def rvu_process_key_def rvu_stat_def
      dd_lookup_def dd_touch_def percentage_29_21)

text \<open>
  Claim C7 says that \<open>percentage_read\<close> is 100 times the read count divided by the sum of the
  read and the unread count, truncated to an integer; its example, one read and three unread
  books giving 25, is \<open>percentage_1_3\<close> above. The code forms the quotient and the product in
  floating point and truncates the product. For fifty books on one shelf, 29 of them read,
  the truncated percentage is 58; the quotient \<open>29 / 50\<close> is the double just below 0.58,
  the product is \<open>57.99999999999999\<close> and the stat gets 57.
\<close>

theorem percentage_read_of_29_in_50:
  "map_sum id stats
     (ReadVsUnreadReport_process
        (ReadVsUnreadReport_init truthy_str fifty_books ''shelves'' True True))
     = Inr (Some [\<lparr>key = ''sf'', percentage_read = 57, difference = 8\<rparr>])
   \<and> (100 * 29) div (29 + 21) = (58 :: int)"
  by (simp add: fifty_init fifty_process)

section \<open>The Book model on the data of the tests\<close>

lemma mock_fields:
  "raw_fields MOCK_BOOK ''title'' = Some ''A Mock Book''"
  "raw_fields MOCK_BOOK ''author'' = Some ''Mick Mock''"
  "raw_fields MOCK_BOOK ''state'' = Some ''read''"
  "raw_fields MOCK_BOOK ''year_published'' = Some ''2002''"
  "raw_fields MOCK_BOOK ''pagination'' = Some ''123''"
  "raw_fields MOCK_BOOK ''date_added'' = Some ''2012/12/22''"
  "raw_fields MOCK_BOOK ''date_read'' = Some ''2015/12/25''"
  by (simp_all add: raw_fields_def FIELD_COLUMNS_def MOCK_BOOK_def)

text \<open>
  The overlay of the spec on the three rules of \<open>test_patching\<close>. The first rule of the list
  matches \<open>MOCK_BOOK\<close> and is the one applied: \<open>year_published\<close> becomes \<open>2019\<close> and
  \<open>pagination\<close> stays \<open>123\<close>, as the test asserts. The second rule matches too and is not
  applied, so \<open>state\<close> stays \<open>read\<close>; the test asserts \<open>to-read\<close> for it.
\<close>

lemma test_patching_fields:
  "apply_patches (raw_fields MOCK_BOOK) test_patches ''year_published'' = Some ''2019''"
  "apply_patches (raw_fields MOCK_BOOK) test_patches ''pagination'' = Some ''123''"
  "apply_patches (raw_fields MOCK_BOOK) test_patches ''state'' = Some ''read''"
  by (simp_all add: apply_patches_def test_patches_def patch_matches_def
      apply_assignments_def mock_fields)

lemma title_0: "series_and_volume ''A Mock Book'' = None"
  by code_simp

lemma title_1: "series_and_volume ''The Cliche of Cliches (Overlong Fantasy Series, #13)'' = Some (''Overlong Fantasy Series'', Some ''13'')"
  by code_simp

lemma title_2: "series_and_volume ''The Cliche of Cliches (Overlong Fantasy Series #14)'' = Some (''Overlong Fantasy Series'', Some ''14'')"
  by code_simp

lemma title_3: "series_and_volume ''The Cliche of Cliches (Overlong Fantasy Series 33)'' = Some (''Overlong Fantasy Series'', Some ''33'')"
  by code_simp

lemma title_4: "series_and_volume ''The Cliche of Cliches (Fantasy Trilogy 3)'' = Some (''Fantasy'', Some ''3'')"
  by code_simp

lemma title_5: "series_and_volume ''The Cliche of Cliches (Fantasy Trilogy Book 3)'' = Some (''Fantasy'', Some ''3'')"
  by code_simp

lemma title_6: "series_and_volume ''The Cliche of Cliches (Overlong Fantasy Series #1-3)'' = Some (''Overlong Fantasy Series'', Some ''1-3'')"
  by code_simp

lemma title_7: "series_and_volume ''The Cliche of Cliches (Overlong Fantasy Series)'' = Some (''Overlong Fantasy Series'', None)"
  by code_simp

lemma title_8: "series_and_volume ''Foo (Bar) Baz'' = None"
  by code_simp

lemma title_9: "series_and_volume ''Dark State (Empire Games #2, Merchant Princes Universe #8)'' = Some (''Empire Games'', Some ''2'')"
  by code_simp

lemma title_10: "series_and_volume ''Foo Bar (I Came, I Saw, I Conquered #3)'' = Some (''I Came'', Some ''3'')"
  by code_simp

lemma title_11: "series_and_volume ''Foo (The Foo Chronicles, #1)'' = Some (''Foo Chronicles'', Some ''1'')"
  by code_simp

lemma title_12: "series_and_volume ''Foo (The Foo Chronicles, #3.4)'' = Some (''Foo Chronicles'', Some ''3.4'')"
  by code_simp

lemma title_13: "series_and_volume ''Tales From Earthsea (Earthsea Cycle, #5)'' = Some (''Earthsea Cycle'', Some ''5'')"
  by code_simp

lemma comma_list_shelves:
  "comma_list ''testing, mocking, software, python''
   = [''testing'', ''mocking'', ''software'', ''python'']"
  by code_simp

lemma sort_shelves:
  "sort [''testing'', ''mocking'', ''software'', ''python'', ''read'']
   = [''mocking'', ''python'', ''read'', ''software'', ''testing'']"
  by code_simp

lemma mock_init:
  "Book_init MOCK_BOOK None []
   = Inr \<lparr>field_values = raw_fields MOCK_BOOK, date_added = Some (2012, 12, 22),
          date_read = Some (2015, 12, 25), as_of_date = None\<rparr>"
  by (simp add: Book_init_def book_of_def apply_patches_def parse_field_def mock_fields
      not_owned_def parse_date_def date_shaped_def valid_ymd_def days_in_month_def number_of_def
      digit_val_def is_digit_def)

section \<open>The constructor\<close>

lemma book_of_Inr:
  assumes "book_of flds as_of = Inr bk"
  shows "field_values bk = flds" and "as_of_date bk = as_of"
    and "parse_field flds ''date_added'' = Inr (date_added bk)"
    and "parse_field flds ''date_read'' = Inr (date_read bk)"
    and "\<not> not_owned as_of (date_added bk)"
  using assms by (auto simp: book_of_def split: sum.splits if_splits)

lemma book_of_ok:
  assumes "parse_field flds ''date_added'' = Inr ad" and "parse_field flds ''date_read'' = Inr rd"
    and "\<not> not_owned as_of ad"
  shows "book_of flds as_of
     = Inr \<lparr>field_values = flds, date_added = ad, date_read = rd, as_of_date = as_of\<rparr>"
  using assms by (simp add: book_of_def)

lemma book_of_not_owned:
  "book_of flds as_of = Inl NotOwnedAtSpecifiedDateError \<longleftrightarrow>
   (\<exists>ad rd. parse_field flds ''date_added'' = Inr ad \<and> parse_field flds ''date_read'' = Inr rd
      \<and> not_owned as_of ad)"
proof -
  have "parse_date s \<noteq> Inl NotOwnedAtSpecifiedDateError" for s
    by (simp add: parse_date_def)
  then have "parse_field flds f \<noteq> Inl NotOwnedAtSpecifiedDateError" for f
    by (simp add: parse_field_def split: option.splits)
  then show ?thesis
    by (auto simp: book_of_def split: sum.splits)
qed

lemma mock_dates:
  "parse_date ''2012/12/22'' = Inr (Some (2012, 12, 22))"
  "parse_date ''2015/12/25'' = Inr (Some (2015, 12, 25))"
  by (simp_all add: parse_date_def date_shaped_def valid_ymd_def days_in_month_def number_of_def
      digit_val_def is_digit_def)

section \<open>The as-of date\<close>

lemma not_owned_ex:
  fixes A R :: "pyerror + date option"
  shows "(\<exists>ad rd. A = Inr ad \<and> R = Inr rd \<and> not_owned as_of ad) \<longleftrightarrow>
     (\<exists>d a rd. as_of = Some d \<and> A = Inr (Some a) \<and> R = Inr rd \<and> date_less d a)"
proof
  assume "\<exists>ad rd. A = Inr ad \<and> R = Inr rd \<and> not_owned as_of ad"
  then obtain ad rd where A: "A = Inr ad" and R: "R = Inr rd" and n: "not_owned as_of ad"
    by blast
  obtain d where d: "as_of = Some d"
    using n by (cases as_of) (simp_all add: not_owned_def)
  obtain a where a: "ad = Some a"
    using n d by (cases ad) (simp_all add: not_owned_def)
  have "date_less d a" using n d a by (simp add: not_owned_def)
  then show "\<exists>d a rd. as_of = Some d \<and> A = Inr (Some a) \<and> R = Inr rd \<and> date_less d a"
    using A R d a by blast
next
  assume "\<exists>d a rd. as_of = Some d \<and> A = Inr (Some a) \<and> R = Inr rd \<and> date_less d a"
  then obtain d a rd where "as_of = Some d" "A = Inr (Some a)" "R = Inr rd" "date_less d a"
    by blast
  then have "A = Inr (Some a) \<and> R = Inr rd \<and> not_owned as_of (Some a)"
    by (simp add: not_owned_def)
  then show "\<exists>ad rd. A = Inr ad \<and> R = Inr rd \<and> not_owned as_of ad"
    by blast
qed

text \<open>
  Claim C2. For every raw record with a read-date and every as-of date that is not before
  the add-date and is strictly before the read-date, the constructor returns a Book, the Book
  is not read (\<open>is_read\<close> is false), and its \<open>date_read\<close> is still the read-date parsed from
  the record.
\<close>

theorem as_of_before_read:
  assumes "parse_field (apply_patches (raw_fields row) patches) ''date_added'' = Inr (Some ad)"
    and "parse_field (apply_patches (raw_fields row) patches) ''date_read'' = Inr (Some rd)"
    and "\<not> date_less d ad"
    and "date_less d rd"
  shows "\<exists>bk. Book_init row (Some d) patches = Inr bk \<and> \<not> is_read bk
            \<and> date_read bk = Some rd"
proof -
  let ?bk = "\<lparr>field_values = apply_patches (raw_fields row) patches, date_added = Some ad,
             date_read = Some rd, as_of_date = Some d\<rparr>"
  have n: "\<not> not_owned (Some d) (Some ad)"
    using assms(3) by (simp add: not_owned_def)
  have i: "Book_init row (Some d) patches = Inr ?bk"
    unfolding Book_init_def by (rule book_of_ok [OF assms(1) assms(2) n])
  have u: "\<not> is_read ?bk"
    using assms(4) by (simp add: is_read_def)
  have r: "date_read ?bk = Some rd" by simp
  show ?thesis
    by (rule exI [of _ ?bk]) (intro conjI i u r)
qed

text \<open>
  Claim C3. Constructing a Book raises \<open>NotOwnedAtSpecifiedDateError\<close> if and only if an as-of
  date is given that is strictly before the parsed add-date of a record whose two date
  fields parse; and for every record whose two date fields parse (blank, or a date in the
  format), constructing the Book without an as-of date returns a Book.
\<close>

theorem not_owned_iff:
  "(Book_init row as_of patches = Inl NotOwnedAtSpecifiedDateError \<longleftrightarrow>
      (\<exists>d a rd. as_of = Some d
         \<and> parse_field (apply_patches (raw_fields row) patches) ''date_added'' = Inr (Some a)
         \<and> parse_field (apply_patches (raw_fields row) patches) ''date_read'' = Inr rd
         \<and> date_less d a))
   \<and> ((\<exists>ad. parse_field (apply_patches (raw_fields row) patches) ''date_added'' = Inr ad)
        \<and> (\<exists>rd. parse_field (apply_patches (raw_fields row) patches) ''date_read'' = Inr rd)
        \<longrightarrow> (\<exists>bk. Book_init row None patches = Inr bk))"
proof (intro conjI impI)
  show "Book_init row as_of patches = Inl NotOwnedAtSpecifiedDateError \<longleftrightarrow>
      (\<exists>d a rd. as_of = Some d
         \<and> parse_field (apply_patches (raw_fields row) patches) ''date_added'' = Inr (Some a)
         \<and> parse_field (apply_patches (raw_fields row) patches) ''date_read'' = Inr rd
         \<and> date_less d a)"
    unfolding Book_init_def book_of_not_owned by (rule not_owned_ex)
next
  assume "(\<exists>ad. parse_field (apply_patches (raw_fields row) patches) ''date_added'' = Inr ad)
        \<and> (\<exists>rd. parse_field (apply_patches (raw_fields row) patches) ''date_read'' = Inr rd)"
  then obtain ad rd where
    a: "parse_field (apply_patches (raw_fields row) patches) ''date_added'' = Inr ad" and
    r: "parse_field (apply_patches (raw_fields row) patches) ''date_read'' = Inr rd"
    by (elim conjE exE)
  have n: "\<not> not_owned None ad" by (simp add: not_owned_def)
  have "Book_init row None patches
      = Inr \<lparr>field_values = apply_patches (raw_fields row) patches, date_added = ad,
             date_read = rd, as_of_date = None\<rparr>"
    unfolding Book_init_def by (rule book_of_ok [OF a r n])
  then show "\<exists>bk. Book_init row None patches = Inr bk" by (rule exI)
qed

theorem as_of_before_read_witness:
  "parse_field (apply_patches (raw_fields MOCK_BOOK) []) ''date_added'' = Inr (Some (2012, 12, 22))
   \<and> parse_field (apply_patches (raw_fields MOCK_BOOK) []) ''date_read'' = Inr (Some (2015, 12, 25))
   \<and> \<not> date_less (2013, 4, 1) (2012, 12, 22)
   \<and> date_less (2013, 4, 1) (2015, 12, 25)
   \<and> (\<exists>bk. Book_init MOCK_BOOK (Some (2013, 4, 1)) [] = Inr bk \<and> \<not> is_read bk
          \<and> date_read bk = Some (2015, 12, 25))"
proof -
  have a: "parse_field (apply_patches (raw_fields MOCK_BOOK) []) ''date_added''
      = Inr (Some (2012, 12, 22))"
    by (simp add: parse_field_def apply_patches_def mock_fields mock_dates)
  have r: "parse_field (apply_patches (raw_fields MOCK_BOOK) []) ''date_read''
      = Inr (Some (2015, 12, 25))"
    by (simp add: parse_field_def apply_patches_def mock_fields mock_dates)
  have o: "\<not> date_less (2013, 4, 1) (2012, 12, 22)"
    by (simp add: date_less_def)
  have b: "date_less (2013, 4, 1) (2015, 12, 25)"
    by (simp add: date_less_def)
  show ?thesis
    by (intro conjI) (rule a r o b as_of_before_read [OF a r o b])+
qed

theorem not_owned_iff_witness:
  "Book_init MOCK_BOOK (Some (1980, 4, 1)) [] = Inl NotOwnedAtSpecifiedDateError
   \<and> parse_field (apply_patches (raw_fields MOCK_BOOK) []) ''date_added'' = Inr (Some (2012, 12, 22))
   \<and> parse_field (apply_patches (raw_fields MOCK_BOOK) []) ''date_read'' = Inr (Some (2015, 12, 25))
   \<and> date_less (1980, 4, 1) (2012, 12, 22)
   \<and> (\<exists>bk. Book_init MOCK_BOOK None [] = Inr bk)"
proof -
  have a: "parse_field (apply_patches (raw_fields MOCK_BOOK) []) ''date_added''
      = Inr (Some (2012, 12, 22))"
    by (simp add: parse_field_def apply_patches_def mock_fields mock_dates)
  have r: "parse_field (apply_patches (raw_fields MOCK_BOOK) []) ''date_read''
      = Inr (Some (2015, 12, 25))"
    by (simp add: parse_field_def apply_patches_def mock_fields mock_dates)
  have l: "date_less (1980, 4, 1) (2012, 12, 22)"
    by (simp add: date_less_def)
  have n: "Book_init MOCK_BOOK (Some (1980, 4, 1)) [] = Inl NotOwnedAtSpecifiedDateError"
    by (rule not_owned_iff [of MOCK_BOOK "Some (1980, 4, 1)" "[]", THEN conjunct1, THEN iffD2],
        rule exI [of _ "(1980, 4, 1)"], rule exI [of _ "(2012, 12, 22)"],
        rule exI [of _ "Some (2015, 12, 25)"])
       (intro conjI refl a r l)
  have i: "\<exists>bk. Book_init MOCK_BOOK None [] = Inr bk"
    by (rule not_owned_iff [of MOCK_BOOK None "[]", THEN conjunct2, rule_format])
       (intro conjI exI [of _ "Some (2012, 12, 22)"] exI [of _ "Some (2015, 12, 25)"] a r)
  show ?thesis
    by (intro conjI) (rule n a r l i)+
qed

section \<open>Series and volume from the title\<close>










section \<open>The accessors by name\<close>

lemma mset_as_hashable: "mset (as_hashable v) = mset (as_sequence v)"
  by (cases v) (simp_all add: as_hashable_def as_sequence_def)

text \<open>
  Claim C8. For every Book and every attribute name, whatever the properties of the class
  are (\<open>getattr\<close> is any lookup of a property by name): \<open>property_as_hashable\<close> fails exactly
  as \<open>property_as_sequence\<close> does (on a name that is no property, or on a property that
  raises), and otherwise returns a tuple with exactly the values of the sequence (as
  multisets), in a fixed order: sorted for a plural property, and for a singular property
  the tuple is the sequence itself, of one element or none.
\<close>

theorem hashable_same_values:
  "(\<forall>e. Book_property_as_sequence getattr bk attr = Inl e
         \<longrightarrow> Book_property_as_hashable getattr bk attr = Inl e)
   \<and> (\<forall>vs. Book_property_as_sequence getattr bk attr = Inr vs \<longrightarrow>
         (\<exists>hs. Book_property_as_hashable getattr bk attr = Inr hs \<and> mset hs = mset vs
            \<and> (\<forall>x. getattr bk attr = Inr (Singular x) \<longrightarrow> hs = vs \<and> length vs \<le> 1)
            \<and> (\<forall>names. getattr bk attr = Inr (Plural names) \<longrightarrow>
                  vs = map PStr names \<and> hs = map PStr (sort names))))"
proof (cases "getattr bk attr")
  case (Inl e)
  then show ?thesis
    by (simp add: Book_property_as_sequence_def Book_property_as_hashable_def)
next
  case (Inr v)
  show ?thesis
  proof (cases v)
    case (Plural names)
    have "mset (map PStr (sort names)) = mset (map PStr names)" by simp
    then show ?thesis
      by (simp add: Book_property_as_sequence_def Book_property_as_hashable_def Inr Plural
          as_sequence_def as_hashable_def)
  next
    case (Singular x)
    then show ?thesis
      by (cases x)
         (simp_all add: Book_property_as_sequence_def Book_property_as_hashable_def Inr
            as_sequence_def as_hashable_def)
  qed
qed

lemma mock_values:
  "field_values MOCK ''bookshelves'' = Some ''testing, mocking, software, python''"
  "field_values MOCK ''state'' = Some ''read''"
  "field_values MOCK ''rating'' = Some ''4''"
  "field_values MOCK ''originally_published_year'' = Some ''2001''"
  "field_values MOCK ''year_published'' = Some ''2002''"
  "field_values MOCK ''title'' = Some ''A Mock Book''"
  by (simp_all add: MOCK_def raw_fields_def FIELD_COLUMNS_def MOCK_BOOK_def)

lemma mock_shelves:
  "shelves MOCK = Inr [''testing'', ''mocking'', ''software'', ''python'', ''read'']"
  by (simp add: shelves_def field_def mock_values comma_list_shelves)

lemma mock_user_shelves:
  "user_shelves MOCK = Inr [''testing'', ''mocking'', ''software'', ''python'']"
  by (simp add: user_shelves_def field_def mock_values comma_list_shelves SYSTEM_SHELVES_def)

lemma mock_rating: "Book_rating MOCK = Inr (Some 4)"
  by (simp add: Book_rating_def field_def mock_values int_of_text_def is_digit_def number_of_def
      digit_val_def)

lemma mock_year: "year MOCK = Inr (Some 2001)"
  by (simp add: year_def int_field_def field_def mock_values int_of_text_def is_digit_def
      number_of_def digit_val_def smaller_year_def)

lemma digits_2000: "digits 2000 = ''2000''"
  by code_simp

lemma mock_decade: "decade MOCK = Inr (Some ''2000s'')"
  by (simp add: decade_def mock_year digits_2000)

lemma mock_series: "series MOCK = Inr None"
  by (simp add: series_def field_def mock_values title_0)

lemma mock_getattr:
  "Book_getattr MOCK ''shelves''
     = Inr (Plural [''testing'', ''mocking'', ''software'', ''python'', ''read''])"
  "Book_getattr MOCK ''rating'' = Inr (Singular (Some (PInt 4)))"
  "Book_getattr MOCK ''decade'' = Inr (Singular (Some (PStr ''2000s'')))"
  "Book_getattr MOCK ''series'' = Inr (Singular None)"
  "Book_getattr MOCK ''shelf'' = Inl AttributeError"
  by (simp_all add: Book_getattr_def plural_of_def number_of_attr_def text_of_def mock_shelves
      mock_rating mock_decade mock_series)

lemma mock_sequence:
  "Book_property_as_sequence Book_getattr MOCK ''shelves''
   = Inr [PStr ''testing'', PStr ''mocking'', PStr ''software'', PStr ''python'', PStr ''read'']"
  "Book_property_as_sequence Book_getattr MOCK ''rating'' = Inr [PInt 4]"
  "Book_property_as_sequence Book_getattr MOCK ''decade'' = Inr [PStr ''2000s'']"
  "Book_property_as_sequence Book_getattr MOCK ''series'' = Inr []"
  "Book_property_as_sequence Book_getattr MOCK ''shelf'' = Inl AttributeError"
  by (simp_all add: Book_property_as_sequence_def mock_getattr as_sequence_def)

theorem hashable_same_values_witness:
  "Book_property_as_sequence Book_getattr MOCK ''shelves''
     = Inr [PStr ''testing'', PStr ''mocking'', PStr ''software'', PStr ''python'', PStr ''read'']
   \<and> Book_property_as_hashable Book_getattr MOCK ''shelves''
     = Inr [PStr ''mocking'', PStr ''python'', PStr ''read'', PStr ''software'', PStr ''testing'']
   \<and> Book_property_as_sequence Book_getattr MOCK ''rating'' = Inr [PInt 4]
   \<and> Book_property_as_hashable Book_getattr MOCK ''rating'' = Inr [PInt 4]
   \<and> Book_property_as_sequence Book_getattr MOCK ''decade'' = Inr [PStr ''2000s'']
   \<and> Book_property_as_hashable Book_getattr MOCK ''decade'' = Inr [PStr ''2000s'']
   \<and> Book_property_as_sequence Book_getattr MOCK ''series'' = Inr []
   \<and> Book_property_as_hashable Book_getattr MOCK ''series'' = Inr []
   \<and> Book_property_as_sequence Book_getattr MOCK ''shelf'' = Inl AttributeError
   \<and> Book_property_as_hashable Book_getattr MOCK ''shelf'' = Inl AttributeError"
proof -
  note sq = hashable_same_values [of Book_getattr MOCK, THEN conjunct2, rule_format]
  obtain hs where "Book_property_as_hashable Book_getattr MOCK ''shelves'' = Inr hs"
    and "\<forall>names. Book_getattr MOCK ''shelves'' = Inr (Plural names) \<longrightarrow>
           [PStr ''testing'', PStr ''mocking'', PStr ''software'', PStr ''python'', PStr ''read'']
             = map PStr names \<and> hs = map PStr (sort names)"
    using sq [OF mock_sequence(1)] by (elim exE conjE)
  then have hsh: "Book_property_as_hashable Book_getattr MOCK ''shelves''
     = Inr [PStr ''mocking'', PStr ''python'', PStr ''read'', PStr ''software'', PStr ''testing'']"
    using mock_getattr(1) by (simp add: sort_shelves)
  obtain hr where "Book_property_as_hashable Book_getattr MOCK ''rating'' = Inr hr"
    and "\<forall>x. Book_getattr MOCK ''rating'' = Inr (Singular x)
           \<longrightarrow> hr = [PInt 4] \<and> length [PInt 4] \<le> 1"
    using sq [OF mock_sequence(2)] by (elim exE conjE)
  then have hrt: "Book_property_as_hashable Book_getattr MOCK ''rating'' = Inr [PInt 4]"
    using mock_getattr(2) by simp
  obtain hdec where "Book_property_as_hashable Book_getattr MOCK ''decade'' = Inr hdec"
    and "\<forall>x. Book_getattr MOCK ''decade'' = Inr (Singular x)
           \<longrightarrow> hdec = [PStr ''2000s''] \<and> length [PStr ''2000s''] \<le> 1"
    using sq [OF mock_sequence(3)] by (elim exE conjE)
  then have hdc: "Book_property_as_hashable Book_getattr MOCK ''decade'' = Inr [PStr ''2000s'']"
    using mock_getattr(3) by simp
  obtain he where "Book_property_as_hashable Book_getattr MOCK ''series'' = Inr he"
    and "mset he = mset ([] :: pyval list)"
    using sq [OF mock_sequence(4)] by (elim exE conjE)
  then have hse: "Book_property_as_hashable Book_getattr MOCK ''series'' = Inr []"
    by simp
  have her: "Book_property_as_hashable Book_getattr MOCK ''shelf'' = Inl AttributeError"
    using hashable_same_values [of Book_getattr MOCK "''shelf''", THEN conjunct1, rule_format,
        OF mock_sequence(5)] .
  show ?thesis
    by (intro conjI) (rule mock_sequence hsh hrt hdc hse her)+
qed

end
